theory Spec2Isabelle
  imports Main "HOL-Library.AList" "HOL-Library.Char_ord" "HOL-Library.List_Lexorder"
    "HOL-Library.Log_Nat"
begin

section \<open>JavaScript objects used as dictionaries\<close>

text \<open>
  The server keeps its counters in plain objects (\<^verbatim>\<open>const counts = {}\<close>) and its poll
  catalogue in an object literal (\<^verbatim>\<open>POLLS\<close>). Three properties of such objects decide what
  the program computes, so the model keeps them:
  \<^item> own properties are remembered in creation order, but \<^verbatim>\<open>Object.entries\<close> and
    \<^verbatim>\<open>Object.keys\<close> list the keys that are array indices first, in ascending numeric
    order, and the other keys after them in creation order;
  \<^item> a read \<^verbatim>\<open>obj[k]\<close> of a key that is not an own property continues in
    \<^verbatim>\<open>Object.prototype\<close>, which has eleven methods and the accessor \<^verbatim>\<open>__proto__\<close>;
  \<^item> a write \<^verbatim>\<open>obj['__proto__'] = v\<close> calls the accessor's setter, which ignores every
    \<^verbatim>\<open>v\<close> that is neither an object nor null, so it never creates a property here.

  Strings are the UTF-8 byte sequences of the JavaScript strings (the encoding of the
  source file and of SQLite's TEXT columns); equality of strings is equality of bytes.
\<close>

type_synonym 'a jsobject = "(string \<times> 'a) list"

text \<open>The values a counter slot can hold: a number of votes, a string (the result of
  \<^verbatim>\<open>+ 1\<close> applied to something that was not a number) or \<^verbatim>\<open>NaN\<close>.\<close>

datatype jsval = Num nat | Text string | NaN

text \<open>What a property read finds.\<close>

datatype 'a property = Own 'a | Inherited_method string | Proto_accessor | Undefined

definition Object_prototype_methods :: "string list" where
  "Object_prototype_methods =
     [''constructor'', ''__defineGetter__'', ''__defineSetter__'', ''hasOwnProperty'',
      ''__lookupGetter__'', ''__lookupSetter__'', ''isPrototypeOf'', ''propertyIsEnumerable'',
      ''toString'', ''valueOf'', ''toLocaleString'']"

definition get_prop :: "'a jsobject \<Rightarrow> string \<Rightarrow> 'a property" where
  "get_prop obj k =
     (case map_of obj k of
        Some v \<Rightarrow> Own v
      | None \<Rightarrow>
          if k = ''__proto__'' then Proto_accessor
          else if k \<in> set Object_prototype_methods then Inherited_method k
          else Undefined)"

definition set_prop :: "'a jsobject \<Rightarrow> string \<Rightarrow> 'a \<Rightarrow> 'a jsobject" where
  "set_prop obj k v = (if k = ''__proto__'' then obj else AList.update k v obj)"

definition is_digit :: "char \<Rightarrow> bool" where
  "is_digit c \<longleftrightarrow> c \<in> set ''0123456789''"

definition digit_value :: "char \<Rightarrow> int" where
  "digit_value c = of_char c - of_char CHR ''0''"

definition decimal_value :: "string \<Rightarrow> int" where
  "decimal_value ds = foldl (\<lambda>a c. 10 * a + digit_value c) 0 ds"

text \<open>An array index is the canonical decimal numeral of an integer from 0 to \<open>2\<^sup>3\<^sup>2 - 2\<close>.\<close>

definition is_array_index :: "string \<Rightarrow> bool" where
  "is_array_index k \<longleftrightarrow>
     k \<noteq> [] \<and> list_all is_digit k \<and> (k = ''0'' \<or> hd k \<noteq> CHR ''0'') \<and>
     decimal_value k \<le> 4294967294"

definition Object_entries :: "'a jsobject \<Rightarrow> (string \<times> 'a) list" where
  "Object_entries obj =
     sort_key (\<lambda>p. decimal_value (fst p)) (filter (\<lambda>p. is_array_index (fst p)) obj) @
     filter (\<lambda>p. \<not> is_array_index (fst p)) obj"

definition Object_keys :: "'a jsobject \<Rightarrow> string list" where
  "Object_keys obj = map fst (Object_entries obj)"

text \<open>\<^verbatim>\<open>String(f)\<close> for a built-in function \<^verbatim>\<open>f\<close> of \<^verbatim>\<open>Object.prototype\<close>, as V8 prints it;
  the function stored under \<^verbatim>\<open>constructor\<close> is named \<^verbatim>\<open>Object\<close>.\<close>

definition native_function_source :: "string \<Rightarrow> string" where
  "native_function_source k =
     ''function '' @ (if k = ''constructor'' then ''Object'' else k) @ ''() { [native code] }''"

text \<open>\<^verbatim>\<open>(counts[k] || 0) + 1\<close>: a number is incremented (\<^verbatim>\<open>0 || 0\<close> is \<^verbatim>\<open>0\<close>); a non-empty
  string, a function or an object is truthy and \<^verbatim>\<open>+\<close> concatenates its string form with
  \<^verbatim>\<open>"1"\<close>; \<^verbatim>\<open>undefined\<close>, \<^verbatim>\<open>NaN\<close> and the empty string are falsy.\<close>

definition or0_plus1 :: "jsval property \<Rightarrow> jsval" where
  "or0_plus1 p =
     (case p of
        Own (Num n) \<Rightarrow> Num (n + 1)
      | Own (Text t) \<Rightarrow> if t = [] then Num 1 else Text (t @ ''1'')
      | Own NaN \<Rightarrow> Num 1
      | Inherited_method f \<Rightarrow> Text (native_function_source f @ ''1'')
      | Proto_accessor \<Rightarrow> Text ''[object Object]1''
      | Undefined \<Rightarrow> Num 1)"

text \<open>\<^verbatim>\<open>counts[k]++\<close> stores \<^verbatim>\<open>ToNumber(counts[k]) + 1\<close>. Everything that is not a number
  here converts to \<^verbatim>\<open>NaN\<close>: \<^verbatim>\<open>undefined\<close>, a function, the prototype object, and the
  strings built by \<open>or0_plus1\<close> (none of which is a numeric literal).\<close>

definition incremented :: "jsval property \<Rightarrow> jsval" where
  "incremented p = (case p of Own (Num n) \<Rightarrow> Num (n + 1) | _ \<Rightarrow> NaN)"

definition bump :: "jsval jsobject \<Rightarrow> string \<Rightarrow> jsval jsobject" where
  "bump counts k = set_prop counts k (or0_plus1 (get_prop counts k))"

definition postincr :: "jsval jsobject \<Rightarrow> string \<Rightarrow> jsval jsobject" where
  "postincr counts k = set_prop counts k (incremented (get_prop counts k))"

text \<open>\<^verbatim>\<open>poll.options.forEach(o => { counts[o] = 0; })\<close> on a fresh object.\<close>

definition zero_counts :: "string list \<Rightarrow> jsval jsobject" where
  "zero_counts opts = foldl (\<lambda>counts opt. set_prop counts opt (Num 0)) [] opts"

section \<open>Values produced by JSON.parse\<close>

text \<open>
  \<^verbatim>\<open>JSON.parse\<close> and \<^verbatim>\<open>JSON.stringify\<close> belong to the language runtime, not to the
  repository. The model takes them as parameters (\<open>parse\<close>, with \<open>None\<close> for a
  \<^verbatim>\<open>SyntaxError\<close>, and \<open>stringify\<close>), so every theorem holds for the real functions. A
  number is represented by the string \<^verbatim>\<open>String(n)\<close>, which is all the program observes
  of it: it is \<^verbatim>\<open>"0"\<close> exactly for the two zeros.
\<close>

datatype json =
    JNull
  | JBool bool
  | JNumber string
  | JString string
  | JArray "json list"
  | JObject "(string \<times> json) list"

text \<open>\<^verbatim>\<open>ToPropertyKey\<close> of a parsed value: \<^verbatim>\<open>counts[s]\<close> converts \<^verbatim>\<open>s\<close> to a string. An
  array is joined with commas, \<^verbatim>\<open>null\<close> elements printing as nothing. An object prints
  as \<^verbatim>\<open>[object Object]\<close> unless it has an own property \<^verbatim>\<open>toString\<close>: that one is never
  callable, the inherited \<^verbatim>\<open>valueOf\<close> returns the object itself, and the conversion
  throws a \<^verbatim>\<open>TypeError\<close> (\<open>None\<close>).\<close>

fun ToPropertyKey :: "json \<Rightarrow> string option"
  and join_elements :: "json list \<Rightarrow> string option" where
  "ToPropertyKey JNull = Some ''null''"
| "ToPropertyKey (JBool b) = Some (if b then ''true'' else ''false'')"
| "ToPropertyKey (JNumber r) = Some r"
| "ToPropertyKey (JString s) = Some s"
| "ToPropertyKey (JArray xs) = join_elements xs"
| "ToPropertyKey (JObject kvs) =
     (if ''toString'' \<in> fst ` set kvs then None else Some ''[object Object]'')"
| "join_elements [] = Some []"
| "join_elements (x # xs) =
     (case (if x = JNull then Some [] else ToPropertyKey x) of
        None \<Rightarrow> None
      | Some s \<Rightarrow>
          if xs = [] then Some s
          else (case join_elements xs of None \<Rightarrow> None | Some t \<Rightarrow> Some (s @ '','' @ t)))"

section \<open>Numbers: parseInt, double precision, toFixed\<close>

text \<open>The characters \<^verbatim>\<open>parseInt\<close> skips at the start of its argument (white space and
  line terminators), in UTF-8.\<close>

definition StrWhiteSpaceChar :: "string list" where
  "StrWhiteSpaceChar =
     [[CHR 0x09], [CHR 0x0A], [CHR 0x0B], [CHR 0x0C], [CHR 0x0D], [CHR 0x20],
      [CHR 0xC2, CHR 0xA0], [CHR 0xE1, CHR 0x9A, CHR 0x80],
      [CHR 0xE2, CHR 0x80, CHR 0x80], [CHR 0xE2, CHR 0x80, CHR 0x81],
      [CHR 0xE2, CHR 0x80, CHR 0x82], [CHR 0xE2, CHR 0x80, CHR 0x83],
      [CHR 0xE2, CHR 0x80, CHR 0x84], [CHR 0xE2, CHR 0x80, CHR 0x85],
      [CHR 0xE2, CHR 0x80, CHR 0x86], [CHR 0xE2, CHR 0x80, CHR 0x87],
      [CHR 0xE2, CHR 0x80, CHR 0x88], [CHR 0xE2, CHR 0x80, CHR 0x89],
      [CHR 0xE2, CHR 0x80, CHR 0x8A], [CHR 0xE2, CHR 0x80, CHR 0xA8],
      [CHR 0xE2, CHR 0x80, CHR 0xA9], [CHR 0xE2, CHR 0x80, CHR 0xAF],
      [CHR 0xE2, CHR 0x81, CHR 0x9F], [CHR 0xE3, CHR 0x80, CHR 0x80],
      [CHR 0xEF, CHR 0xBB, CHR 0xBF]]"

definition ws_length :: "string \<Rightarrow> nat" where
  "ws_length s =
     (case filter (\<lambda>w. take (length w) s = w) StrWhiteSpaceChar of
        [] \<Rightarrow> 0
      | w # _ \<Rightarrow> length w)"

fun TrimStart :: "string \<Rightarrow> string" where
  "TrimStart [] = []"
| "TrimStart (c # cs) =
     (if ws_length (c # cs) = 0 then c # cs else TrimStart (drop (ws_length (c # cs) - 1) cs))"

text \<open>The value of a character as a digit; 36 when it is none in any radix.\<close>

definition digit_of :: "char \<Rightarrow> nat" where
  "digit_of c =
     (let n = (of_char c :: nat)
      in if 48 \<le> n \<and> n \<le> 57 then n - 48
         else if 97 \<le> n \<and> n \<le> 122 then n - 87
         else if 65 \<le> n \<and> n \<le> 90 then n - 55
         else 36)"

text \<open>\<^verbatim>\<open>parseInt(string)\<close> with no radix, as the language specification defines it: skip
  white space, read a sign, switch to radix 16 after \<^verbatim>\<open>0x\<close> or \<^verbatim>\<open>0X\<close>, keep the longest
  prefix of digits, and return \<^verbatim>\<open>NaN\<close> (\<open>None\<close>) when that prefix is empty. The result here
  is the mathematical integer; \<open>to_double\<close> below makes it a Number.\<close>

definition parseInt :: "string \<Rightarrow> int option" where
  "parseInt inputString =
     (let S = TrimStart inputString;
          sign = (if S \<noteq> [] \<and> hd S = CHR ''-'' then - 1 else 1 :: int);
          S1 = (if S \<noteq> [] \<and> (hd S = CHR ''+'' \<or> hd S = CHR ''-'') then tl S else S);
          hex = (take 2 S1 = ''0x'' \<or> take 2 S1 = ''0X'');
          R = (if hex then 16 else 10 :: nat);
          S2 = (if hex then drop 2 S1 else S1);
          Z = takeWhile (\<lambda>c. digit_of c < R) S2
      in if Z = [] then None
         else Some (sign * foldl (\<lambda>a c. int R * a + int (digit_of c)) 0 Z))"

text \<open>
  A finite Number is the rational it denotes. \<open>to_double q\<close> is the double nearest to
  \<open>q\<close>, ties going to the even significand: with \<open>2\<^sup>e \<le> |q| < 2\<^sup>e\<^sup>+\<^sup>1\<close> the doubles around
  \<open>q\<close> are the multiples of \<open>2\<^sup>e\<^sup>-\<^sup>5\<^sup>2\<close>. Overflow to infinity and subnormal numbers are
  not part of this function, and \<open>likert_average\<close> below does not need them: it applies
  the function to integers below \<open>10\<^sup>2\<^sup>0\<close> in magnitude, to sums of fewer than \<open>2\<^sup>3\<^sup>2\<close> of
  them (the length of an array) and to the quotient of such a sum by such a length.
\<close>

definition pow2 :: "int \<Rightarrow> rat" where
  "pow2 e = (if 0 \<le> e then 2 ^ nat e else 1 / 2 ^ nat (- e))"

definition floor_log2 :: "rat \<Rightarrow> int" where
  "floor_log2 q =
     (let d = bitlen (fst (quotient_of q)) - bitlen (snd (quotient_of q))
      in if pow2 d \<le> q then d else d - 1)"

definition round_half_even :: "rat \<Rightarrow> int" where
  "round_half_even q =
     (let f = \<lfloor>q\<rfloor>; r = q - of_int f
      in if r < 1 / 2 then f else if 1 / 2 < r then f + 1 else if even f then f else f + 1)"

definition to_double :: "rat \<Rightarrow> rat" where
  "to_double q =
     (if q = 0 then 0
      else let e = floor_log2 \<bar>q\<bar> - 52
           in sgn q * of_int (round_half_even (\<bar>q\<bar> / pow2 e)) * pow2 e)"

definition digit_char :: "nat \<Rightarrow> char" where
  "digit_char d = char_of (48 + d)"

text \<open>The decimal digits of an integer that is not negative.\<close>

function show_nat :: "int \<Rightarrow> string" where
  "show_nat n =
     (if n < 10 then [digit_char (nat n)]
      else show_nat (n div 10) @ [digit_char (nat (n mod 10))])"
  by pat_completeness auto
termination
  by (relation "measure nat") auto

declare show_nat.simps [simp del]

text \<open>\<^verbatim>\<open>x.toFixed(1)\<close> for a finite \<open>x\<close> below \<open>10\<^sup>2\<^sup>1\<close> in magnitude: the integer \<open>n\<close> for
  which \<open>n / 10 - |x|\<close> is closest to zero, the larger one of two, printed with one
  digit after the point, behind a minus sign when \<open>x < 0\<close>.\<close>

definition nearest_tenth :: "rat \<Rightarrow> int" where
  "nearest_tenth x = \<lfloor>10 * x + 1 / 2\<rfloor>"

definition toFixed1 :: "rat \<Rightarrow> string" where
  "toFixed1 x =
     (let s = (if x < 0 then ''-'' else []);
          m = show_nat (nearest_tenth \<bar>x\<bar>);
          m' = (if length m \<le> 1 then ''0'' @ m else m)
      in s @ take (length m' - 1) m' @ ''.'' @ drop (length m' - 1) m')"

text \<open>
  The average of a rating-scale poll:
  \<^verbatim>\<open>
    let sum = 0, n = 0;
    rows.forEach(r => {
      const num = parseInt(r.value);
      if (!isNaN(num)) { sum += num; n++; }
    });
    ... average: n > 0 ? (sum / n).toFixed(1) : '0.0'
  \<close>
  \<^verbatim>\<open>sum\<close> is a double, so every addition and the division round; \<^verbatim>\<open>n\<close> counts elements
  of an array and is exact. The language leaves the value of \<^verbatim>\<open>parseInt\<close> to the
  implementation after the 20th significant digit, and \<^verbatim>\<open>toFixed\<close> switches to
  exponent notation from \<open>10\<^sup>2\<^sup>1\<close>: the model answers \<open>Unmodelled\<close> there instead of
  guessing.
\<close>

datatype average = Fixed string | Unmodelled

fun mean_loop :: "rat \<times> nat \<Rightarrow> string list \<Rightarrow> rat \<times> nat" where
  "mean_loop (s, n) [] = (s, n)"
| "mean_loop (s, n) (v # vs) =
     (case parseInt v of
        None \<Rightarrow> mean_loop (s, n) vs
      | Some num \<Rightarrow> mean_loop (to_double (s + to_double (of_int num)), n + 1) vs)"

definition beyond_20_digits :: "string \<Rightarrow> bool" where
  "beyond_20_digits v = (case parseInt v of None \<Rightarrow> False | Some num \<Rightarrow> 10 ^ 20 \<le> \<bar>num\<bar>)"

definition likert_average :: "string list \<Rightarrow> average" where
  "likert_average vals =
     (if list_ex beyond_20_digits vals then Unmodelled
      else
        (case mean_loop (0, 0) vals of
           (s, n) \<Rightarrow>
             if 0 < n then
               (let q = to_double (s / of_nat n)
                in if 10 ^ 21 \<le> \<bar>q\<bar> then Unmodelled else Fixed (toFixed1 q))
             else Fixed ''0.0''))"

section \<open>The poll catalogue\<close>

record poll =
  question :: string
  type :: string
  options :: "string list"

text \<open>The dash of the rating-scale labels is U+2014, three bytes in UTF-8.\<close>

definition em_dash :: string where
  "em_dash = [CHR 0xE2, CHR 0x80, CHR 0x94]"

definition POLLS :: "poll jsobject" where
  "POLLS =
     [(''1'', \<lparr>question = ''Have you used AI for work in the past month?'', type = ''mc'',
         options = [''Yes, regularly'', ''Yes, a few times'', ''No, but I'm curious'',
                    ''What's AI?'']\<rparr>),
      (''2'', \<lparr>question = ''What GS/production task would you want AI to help with?'',
         type = ''open'', options = []\<rparr>),
      (''3'', \<lparr>question = ''How confident are you in using AI for work?'', type = ''likert'',
         options = [''1 '' @ em_dash @ '' Not at all'', ''2 '' @ em_dash @ '' A little nervous'',
                    ''3 '' @ em_dash @ '' Somewhat confident'',
                    ''4 '' @ em_dash @ '' Pretty confident'',
                    ''5 '' @ em_dash @ '' I'm already an AI pro'']\<rparr>),
      (''4'', \<lparr>question = ''What AI tools have you heard of?'', type = ''multi'',
         options = [''ChatGPT'', ''Microsoft Copilot'', ''Google Gemini'', ''Claude'',
                    ''ElevenLabs'', ''Midjourney / DALL-E'', ''None of these'']\<rparr>),
      (''5'', \<lparr>question = ''What's your biggest concern about using AI?'', type = ''open'',
         options = []\<rparr>),
      (''6'', \<lparr>question = ''How many of you have clients that use AI?'', type = ''mc'',
         options = [''Yes, several clients'', ''Yes, a few'', ''Not that I know of'',
                    ''I'm not sure'']\<rparr>)]"

section \<open>The aggregator\<close>

text \<open>An element of the \<^verbatim>\<open>results\<close> array: a stored text for a free-text poll, a pair
  \<^verbatim>\<open>{label, count}\<close> for the others.\<close>

datatype item = Raw string | Count string jsval

record aggregate =
  total :: nat
  results :: "item list"
  writeIns :: "string list option"
  average :: "average option"

text \<open>\<^verbatim>\<open>Object.entries(counts).map(([label, count]) => ({ label, count }))\<close>\<close>

definition entries_of :: "jsval jsobject \<Rightarrow> item list" where
  "entries_of counts = map (\<lambda>(label, count). Count label count) (Object_entries counts)"

text \<open>
  One row of a multi-select poll:
  \<^verbatim>\<open>
    try {
      const selected = JSON.parse(r.value);
      selected.forEach(s => { counts[s] = (counts[s] || 0) + 1; });
    } catch { /* ignore bad data */ }
  \<close>
  A \<^verbatim>\<open>SyntaxError\<close> of the parser, or a parsed value that is not an array (it has no
  callable \<^verbatim>\<open>forEach\<close>), leaves the counters as they are. Inside \<^verbatim>\<open>forEach\<close> an element
  whose conversion to a property key throws ends the loop; the increments made for the
  elements before it stay.
\<close>

fun tally_selected :: "jsval jsobject \<Rightarrow> json list \<Rightarrow> jsval jsobject" where
  "tally_selected counts [] = counts"
| "tally_selected counts (s # rest) =
     (case ToPropertyKey s of
        None \<Rightarrow> counts
      | Some k \<Rightarrow> tally_selected (bump counts k) rest)"

definition tally_row :: "(string \<Rightarrow> json option) \<Rightarrow> jsval jsobject \<Rightarrow> string \<Rightarrow> jsval jsobject" where
  "tally_row parse counts v =
     (case parse v of
        Some (JArray selected) \<Rightarrow> tally_selected counts selected
      | _ \<Rightarrow> counts)"

text \<open>
  One row of a single-choice-with-writein poll:
  \<^verbatim>\<open>
    if (poll.options.includes(r.value)) { counts[r.value]++; }
    else { counts['Other']++; writeIns.push(r.value); }
  \<close>
\<close>

definition writein_row ::
  "string list \<Rightarrow> jsval jsobject \<times> string list \<Rightarrow> string \<Rightarrow> jsval jsobject \<times> string list" where
  "writein_row opts st v =
     (if v \<in> set opts then (postincr (fst st) v, snd st)
      else (postincr (fst st) ''Other'', snd st @ [v]))"

text \<open>The last branch of \<^verbatim>\<open>aggregateResults\<close>, "simple count per option":
  \<^verbatim>\<open>
    (poll.options || []).forEach(o => { counts[o] = 0; });
    rows.forEach(r => { counts[r.value] = (counts[r.value] || 0) + 1; });
  \<close>\<close>

definition simple_count :: "string list \<Rightarrow> string list \<Rightarrow> jsval jsobject" where
  "simple_count opts rows = foldl bump (zero_counts opts) rows"

text \<open>The body of \<^verbatim>\<open>aggregateResults\<close> for a poll of the catalogue; \<open>rows\<close> are the
  stored values of the poll in the order the store returns them.\<close>

definition aggregate :: "(string \<Rightarrow> json option) \<Rightarrow> poll \<Rightarrow> string list \<Rightarrow> aggregate" where
  "aggregate parse poll rows =
     (if type poll = ''open'' then
        \<lparr>total = length rows, results = map Raw (rev rows), writeIns = None, average = None\<rparr>
      else if type poll = ''multi'' then
        \<lparr>total = length rows,
         results = entries_of (foldl (tally_row parse) (zero_counts (options poll)) rows),
         writeIns = None, average = None\<rparr>
      else if type poll = ''mc-writein'' then
        (case foldl (writein_row (options poll))
                (set_prop (zero_counts (options poll)) ''Other'' (Num 0), []) rows of
           (counts, ws) \<Rightarrow>
             \<lparr>total = length rows, results = entries_of counts,
              writeIns = Some (rev ws), average = None\<rparr>)
      else if type poll = ''likert'' then
        \<lparr>total = length rows, results = entries_of (simple_count (options poll) rows),
         writeIns = None, average = Some (likert_average rows)\<rparr>
      else
        \<lparr>total = length rows, results = entries_of (simple_count (options poll) rows),
         writeIns = None, average = None\<rparr>)"

section \<open>The vote store\<close>

text \<open>
  The table \<^verbatim>\<open>votes\<close> as the list of its rows in rowid order, with the counter that
  AUTOINCREMENT keeps in \<^verbatim>\<open>sqlite_sequence\<close>. \<^verbatim>\<open>created_at\<close> is the clock reading the
  environment supplies.
\<close>

record vote =
  row_id :: nat
  poll_id :: string
  voter_id :: string
  val :: string
  created_at :: nat

record database =
  votes :: "vote list"
  seq :: nat

definition conflicts :: "string \<Rightarrow> string \<Rightarrow> vote \<Rightarrow> bool" where
  "conflicts p v r \<longleftrightarrow> poll_id r = p \<and> voter_id r = v"

text \<open>The rowid an \<^verbatim>\<open>INSERT\<close> draws from an AUTOINCREMENT key: one more than the largest
  rowid the table holds or has ever held. (SQLite refuses the insertion once that is
  \<open>2\<^sup>6\<^sup>3 - 1\<close>, which takes more statements than a server can run.)\<close>

definition next_rowid :: "database \<Rightarrow> nat" where
  "next_rowid d = Suc (fold max (map row_id (votes d)) (seq d))"

text \<open>\<^verbatim>\<open>INSERT ... ON CONFLICT(poll_id, voter_id) DO UPDATE SET value = @value,
  created_at = CURRENT_TIMESTAMP\<close>. The statement draws its rowid before it meets the
  conflict, so the counter advances also when the row is updated in place.\<close>

definition upsertVote :: "nat \<Rightarrow> string \<Rightarrow> string \<Rightarrow> string \<Rightarrow> database \<Rightarrow> database" where
  "upsertVote now p v x d =
     (if list_ex (conflicts p v) (votes d) then
        d\<lparr>votes := map (\<lambda>r. if conflicts p v r then r\<lparr>val := x, created_at := now\<rparr> else r)
                      (votes d),
          seq := next_rowid d\<rparr>
      else
        d\<lparr>votes := votes d @
                    [\<lparr>row_id = next_rowid d, poll_id = p, voter_id = v, val = x,
                      created_at = now\<rparr>],
          seq := next_rowid d\<rparr>)"

text \<open>
  \<^verbatim>\<open>SELECT value FROM votes WHERE poll_id = ?\<close> has no ORDER BY. SQLite finds the rows of
  one poll through the index that \<^verbatim>\<open>UNIQUE(poll_id, voter_id)\<close> creates
  (\<^verbatim>\<open>SEARCH votes USING INDEX sqlite_autoindex_votes_1 (poll_id=?)\<close>) and reads an index
  in key order: the rows of the poll come in ascending order of \<^verbatim>\<open>voter_id\<close>, compared
  byte by byte (the collation BINARY of a TEXT column), and rows with the same
  \<^verbatim>\<open>voter_id\<close>, which the constraint excludes, in rowid order. The order on strings is
  the lexicographic order of the byte values, a proper prefix coming first.
\<close>

definition index_rows :: "database \<Rightarrow> string \<Rightarrow> vote list" where
  "index_rows d p = sort_key voter_id (filter (\<lambda>r. poll_id r = p) (votes d))"

definition getVotes :: "database \<Rightarrow> string \<Rightarrow> string list" where
  "getVotes d p = map val (index_rows d p)"

definition clearAll :: "database \<Rightarrow> database" where
  "clearAll d = d\<lparr>votes := []\<rparr>"

text \<open>
  \<^verbatim>\<open>aggregateResults(pollId)\<close>. \<^verbatim>\<open>POLLS[pollId]\<close> is a property read: for the name of a
  member of \<^verbatim>\<open>Object.prototype\<close> it yields that member, which is truthy and has neither
  \<^verbatim>\<open>type\<close> nor \<^verbatim>\<open>options\<close>, so the function falls through to the simple count with no
  declared option.
\<close>

definition aggregateResults ::
  "(string \<Rightarrow> json option) \<Rightarrow> poll jsobject \<Rightarrow> database \<Rightarrow> string \<Rightarrow> aggregate" where
  "aggregateResults parse catalogue d pollId =
     (let rows = getVotes d pollId
      in case get_prop catalogue pollId of
           Undefined \<Rightarrow> \<lparr>total = 0, results = [], writeIns = None, average = None\<rparr>
         | Own poll \<Rightarrow> aggregate parse poll rows
         | _ \<Rightarrow>
             \<lparr>total = length rows, results = entries_of (simple_count [] rows),
              writeIns = None, average = None\<rparr>)"

section \<open>The broadcast hub\<close>

text \<open>
  The objects the server broadcasts: \<^verbatim>\<open>{ type: 'vote', poll, results }\<close> and
  \<^verbatim>\<open>{ type: 'tunnel', url }\<close>. \<^verbatim>\<open>JSON.stringify\<close> is injective on them and is left out:
  a socket receives the object itself.
\<close>

datatype message = Vote_update (msg_type: string) (msg_poll: string) (msg_results: aggregate)
  | Tunnel (msg_type: string) (msg_url: string)

text \<open>A connected WebSocket: \<open>alive\<close> says whether \<^verbatim>\<open>ws.send\<close> goes through or throws;
  \<open>inbox\<close> is what the peer has been sent, oldest first.\<close>

record socket =
  sid :: nat
  alive :: bool
  inbox :: "message list"

record server =
  db :: database
  clients :: "socket list"
  published :: "message list"
  upsert_calls :: nat

text \<open>\<open>published\<close> and \<open>upsert_calls\<close> are not variables of the program: they record
  every call of \<^verbatim>\<open>broadcast\<close> and of \<^verbatim>\<open>upsertVote.run\<close>, so that "nothing was broadcast"
  and "the write was not tried again" can be stated.\<close>

definition ws_send :: "socket \<Rightarrow> message \<Rightarrow> string + socket" where
  "ws_send ws msg =
     (if alive ws then Inr (ws\<lparr>inbox := inbox ws @ [msg]\<rparr>) else Inl ''WebSocket is not open'')"

text \<open>
  \<^verbatim>\<open>
    for (const ws of clients) {
      try { ws.send(msg); } catch { /* ignore */ }
    }
  \<close>
\<close>

fun send_all :: "message \<Rightarrow> socket list \<Rightarrow> socket list" where
  "send_all msg [] = []"
| "send_all msg (ws # rest) =
     (case ws_send ws msg of
        Inl err \<Rightarrow> ws # send_all msg rest
      | Inr ws' \<Rightarrow> ws' # send_all msg rest)"

definition broadcast :: "message \<Rightarrow> server \<Rightarrow> server" where
  "broadcast msg srv =
     srv\<lparr>clients := send_all msg (clients srv), published := published srv @ [msg]\<rparr>"

section \<open>The routes\<close>

text \<open>
  A request body after \<^verbatim>\<open>express.json()\<close>: each field is absent or holds a value. The
  poll and voter identifiers are strings, as the data model has them; the value is any
  JSON value.
\<close>

record vote_request =
  req_poll :: "string option"
  req_value :: "json option"
  req_voterId :: "string option"

text \<open>What the environment decides for one request: the clock, and whether
  \<^verbatim>\<open>upsertVote.run\<close> throws (with the message of the error).\<close>

record environment =
  now :: nat
  storage_error :: "string option"

datatype reply = Ok | Ok_message string | Error string | Result aggregate

record response =
  status :: nat
  body :: reply

text \<open>\<^verbatim>\<open>!x\<close> for a string field and for a JSON field.\<close>

definition falsy_string :: "string option \<Rightarrow> bool" where
  "falsy_string x \<longleftrightarrow> x = None \<or> x = Some []"

definition falsy :: "json option \<Rightarrow> bool" where
  "falsy x \<longleftrightarrow>
     x = None \<or> x = Some JNull \<or> x = Some (JBool False) \<or> x = Some (JNumber ''0'') \<or>
     x = Some (JString [])"

text \<open>\<^verbatim>\<open>!POLLS[poll]\<close>: only \<^verbatim>\<open>undefined\<close> is falsy among what the read can find.\<close>

definition no_poll :: "poll jsobject \<Rightarrow> string \<Rightarrow> bool" where
  "no_poll catalogue p \<longleftrightarrow> get_prop catalogue p = Undefined"

definition upsertVote_run ::
  "environment \<Rightarrow> string \<Rightarrow> string \<Rightarrow> string \<Rightarrow> database \<Rightarrow> string + database" where
  "upsertVote_run env p v x d =
     (case storage_error env of
        Some err \<Rightarrow> Inl err
      | None \<Rightarrow> Inr (upsertVote (now env) p v x d))"

text \<open>
  \<^verbatim>\<open>
  app.post('/api/vote', (req, res) => {
    const { poll, value, voterId } = req.body;
    if (!poll || !value || !voterId) {
      return res.status(400).json({ error: 'Missing poll, value, or voterId' });
    }
    if (!POLLS[poll]) {
      return res.status(400).json({ error: 'Invalid poll ID' });
    }
    try {
      upsertVote.run({ poll_id: poll, voter_id: voterId,
        value: typeof value === 'string' ? value : JSON.stringify(value) });
      const results = aggregateResults(poll);
      broadcast({ type: 'vote', poll, results });
      res.json({ ok: true });
    } catch (err) {
      res.status(500).json({ error: err.message });
    }
  });
  \<close>
\<close>

text \<open>\<^verbatim>\<open>typeof value === 'string' ? value : JSON.stringify(value)\<close>\<close>

definition stored_text :: "(json \<Rightarrow> string) \<Rightarrow> json \<Rightarrow> string" where
  "stored_text stringify v = (case v of JString s \<Rightarrow> s | _ \<Rightarrow> stringify v)"

definition api_vote ::
  "(string \<Rightarrow> json option) \<Rightarrow> (json \<Rightarrow> string) \<Rightarrow> poll jsobject \<Rightarrow> environment \<Rightarrow>
   vote_request \<Rightarrow> server \<Rightarrow> response \<times> server" where
  "api_vote parse stringify catalogue env req srv =
     (if falsy_string (req_poll req) \<or> falsy (req_value req) \<or> falsy_string (req_voterId req)
      then (\<lparr>status = 400, body = Error ''Missing poll, value, or voterId''\<rparr>, srv)
      else
        (let poll = the (req_poll req); v = the (req_value req); voterId = the (req_voterId req)
         in if no_poll catalogue poll
            then (\<lparr>status = 400, body = Error ''Invalid poll ID''\<rparr>, srv)
            else
              (case upsertVote_run env poll voterId (stored_text stringify v) (db srv) of
                 Inl err \<Rightarrow>
                   (\<lparr>status = 500, body = Error err\<rparr>,
                    srv\<lparr>upsert_calls := Suc (upsert_calls srv)\<rparr>)
               | Inr d \<Rightarrow>
                   (let srv1 = srv\<lparr>db := d, upsert_calls := Suc (upsert_calls srv)\<rparr>;
                        results = aggregateResults parse catalogue d poll
                    in (\<lparr>status = 200, body = Ok\<rparr>,
                        broadcast (Vote_update ''vote'' poll results) srv1)))))"

text \<open>
  \<^verbatim>\<open>
  app.get('/api/results/:pollId', (req, res) => {
    const { pollId } = req.params;
    if (!POLLS[pollId]) return res.status(404).json({ error: 'Poll not found' });
    res.json(aggregateResults(pollId));
  });
  \<close>
\<close>

definition api_results ::
  "(string \<Rightarrow> json option) \<Rightarrow> poll jsobject \<Rightarrow> string \<Rightarrow> server \<Rightarrow> response" where
  "api_results parse catalogue pollId srv =
     (if no_poll catalogue pollId then \<lparr>status = 404, body = Error ''Poll not found''\<rparr>
      else \<lparr>status = 200, body = Result (aggregateResults parse catalogue (db srv) pollId)\<rparr>)"

text \<open>
  \<^verbatim>\<open>
  app.get('/api/reset', (req, res) => {
    clearAll.run();
    Object.keys(POLLS).forEach(pid => {
      broadcast({ type: 'vote', poll: pid, results: aggregateResults(pid) });
    });
    res.json({ ok: true, message: 'All votes cleared' });
  });
  \<close>
\<close>

definition api_reset ::
  "(string \<Rightarrow> json option) \<Rightarrow> poll jsobject \<Rightarrow> server \<Rightarrow> response \<times> server" where
  "api_reset parse catalogue srv =
     (let srv1 = srv\<lparr>db := clearAll (db srv)\<rparr>
      in (\<lparr>status = 200, body = Ok_message ''All votes cleared''\<rparr>,
          foldl (\<lambda>s pid.
                   broadcast (Vote_update ''vote'' pid (aggregateResults parse catalogue (db s) pid)) s)
            srv1 (Object_keys catalogue)))"

text \<open>What happens to the server, one event after the other: the two routes that change
  state, and the life of a WebSocket (\<^verbatim>\<open>clients.add(ws)\<close> on connection, a peer that goes
  away, \<^verbatim>\<open>clients.delete(ws)\<close> on \<^verbatim>\<open>close\<close> or \<^verbatim>\<open>error\<close>).\<close>

datatype event =
    Post_vote environment vote_request
  | Get_reset
  | Connection nat
  | Peer_gone nat
  | Closed nat

definition step ::
  "(string \<Rightarrow> json option) \<Rightarrow> (json \<Rightarrow> string) \<Rightarrow> poll jsobject \<Rightarrow> server \<Rightarrow> event \<Rightarrow> server" where
  "step parse stringify catalogue srv e =
     (case e of
        Post_vote env req \<Rightarrow> snd (api_vote parse stringify catalogue env req srv)
      | Get_reset \<Rightarrow> snd (api_reset parse catalogue srv)
      | Connection i \<Rightarrow>
          (if i \<in> sid ` set (clients srv) then srv
           else srv\<lparr>clients := clients srv @ [\<lparr>sid = i, alive = True, inbox = []\<rparr>]\<rparr>)
      | Peer_gone i \<Rightarrow>
          srv\<lparr>clients := map (\<lambda>ws. if sid ws = i then ws\<lparr>alive := False\<rparr> else ws) (clients srv)\<rparr>
      | Closed i \<Rightarrow> srv\<lparr>clients := filter (\<lambda>ws. sid ws \<noteq> i) (clients srv)\<rparr>)"

definition run ::
  "(string \<Rightarrow> json option) \<Rightarrow> (json \<Rightarrow> string) \<Rightarrow> poll jsobject \<Rightarrow> server \<Rightarrow> event list \<Rightarrow> server" where
  "run parse stringify catalogue srv es = foldl (step parse stringify catalogue) srv es"

definition start :: server where
  "start = \<lparr>db = \<lparr>votes = [], seq = 0\<rparr>, clients = [], published = [], upsert_calls = 0\<rparr>"

section \<open>A reader and a printer for arrays of labels\<close>

text \<open>
  The voting page sends the selection of a multi-select poll as
  \<^verbatim>\<open>JSON.stringify([...selected])\<close>. \<open>parse_labels\<close> reads the texts of that shape: a
  bracketed, comma-separated list of double-quoted strings with no white space, no
  backslash and no control character. Where it returns a value, \<^verbatim>\<open>JSON.parse\<close> returns
  the same one; it serves as the concrete parser of the examples below, whose general
  statements hold for every parser.
\<close>

datatype scan = Item_or_end | Inside | After_item | Item | Finished

fun labels_scan :: "scan \<Rightarrow> string \<Rightarrow> string list \<Rightarrow> string \<Rightarrow> string list option" where
  "labels_scan Finished cur acc [] = Some acc"
| "labels_scan st cur acc [] = None"
| "labels_scan Item_or_end cur acc (c # cs) =
     (if c = CHR 0x22 then labels_scan Inside [] acc cs
      else if c = CHR '']'' then labels_scan Finished [] acc cs
      else None)"
| "labels_scan Item cur acc (c # cs) =
     (if c = CHR 0x22 then labels_scan Inside [] acc cs else None)"
| "labels_scan Inside cur acc (c # cs) =
     (if c = CHR 0x22 then labels_scan After_item [] (acc @ [cur]) cs
      else if c = CHR 0x5C \<or> (of_char c :: nat) < 32 then None
      else labels_scan Inside (cur @ [c]) acc cs)"
| "labels_scan After_item cur acc (c # cs) =
     (if c = CHR '','' then labels_scan Item [] acc cs
      else if c = CHR '']'' then labels_scan Finished [] acc cs
      else None)"
| "labels_scan Finished cur acc (c # cs) = None"

definition parse_labels :: "string \<Rightarrow> json option" where
  "parse_labels s =
     (case s of
        [] \<Rightarrow> None
      | c # cs \<Rightarrow>
          if c = CHR ''[''
          then map_option (\<lambda>ls. JArray (map JString ls)) (labels_scan Item_or_end [] [] cs)
          else None)"

fun commas :: "string list \<Rightarrow> string" where
  "commas [] = []"
| "commas [s] = s"
| "commas (s # t # ts) = s @ '','' @ commas (t # ts)"

text \<open>\<open>stringify_plain\<close> prints a JSON value the way \<^verbatim>\<open>JSON.stringify\<close> does when no
  string in it needs an escape and every object lists its keys in property order.\<close>

fun stringify_plain :: "json \<Rightarrow> string" where
  "stringify_plain JNull = ''null''"
| "stringify_plain (JBool b) = (if b then ''true'' else ''false'')"
| "stringify_plain (JNumber r) = r"
| "stringify_plain (JString s) = [CHR 0x22] @ s @ [CHR 0x22]"
| "stringify_plain (JArray xs) = ''['' @ commas (map stringify_plain xs) @ '']''"
| "stringify_plain (JObject kvs) =
     ''{'' @ commas (map (\<lambda>(k, v). [CHR 0x22] @ k @ [CHR 0x22] @ '':'' @ stringify_plain v) kvs)
       @ ''}''"

section \<open>Notions the properties are stated with\<close>

text \<open>The label of an element of \<^verbatim>\<open>results\<close>.\<close>

fun label :: "item \<Rightarrow> string" where
  "label (Raw s) = s"
| "label (Count l c) = l"

text \<open>The keys an object holds after the keys \<open>ks\<close> have been assigned to it one after the
  other: each key once, at the place of its first assignment, and \<^verbatim>\<open>__proto__\<close> never.\<close>

definition key_step :: "string list \<Rightarrow> string \<Rightarrow> string list" where
  "key_step own k = (if k = ''__proto__'' \<or> k \<in> set own then own else own @ [k])"

definition created :: "string list \<Rightarrow> string list" where
  "created ks = foldl key_step [] ks"

text \<open>The order in which the results list these keys: those that are array indices
  first, by ascending numeric value, then the others in the order of their creation.\<close>

definition listed :: "string list \<Rightarrow> string list" where
  "listed ks =
     sort_key decimal_value (filter is_array_index (created ks)) @
     filter (\<lambda>k. \<not> is_array_index k) (created ks)"

text \<open>Option lists that this listing leaves as they are: no label twice, none that is
  \<^verbatim>\<open>__proto__\<close>, and the labels that are array indices, if any, at the front in ascending
  order.\<close>

definition keeps_order :: "string list \<Rightarrow> bool" where
  "keeps_order opts \<longleftrightarrow>
     distinct opts \<and> ''__proto__'' \<notin> set opts \<and>
     sorted (map decimal_value (takeWhile is_array_index opts)) \<and>
     list_all (\<lambda>k. \<not> is_array_index k) (dropWhile is_array_index opts)"

text \<open>Option lists with no label twice, none that is an array index and none that is
  \<^verbatim>\<open>__proto__\<close>.\<close>

definition plain_labels :: "string list \<Rightarrow> bool" where
  "plain_labels opts \<longleftrightarrow>
     distinct opts \<and> list_all (\<lambda>k. \<not> is_array_index k \<and> k \<noteq> ''__proto__'') opts"

text \<open>What the slot of a key holds after the simple count of the keys \<open>ks\<close>, the options
  \<open>opts\<close> having been set to zero first: the number of occurrences of the key, except
  for an undeclared key that names a method of \<^verbatim>\<open>Object.prototype\<close>, where the first
  \<^verbatim>\<open>+ 1\<close> found the method and made a string of it.\<close>

definition counted :: "string list \<Rightarrow> string list \<Rightarrow> string \<Rightarrow> jsval" where
  "counted opts ks k =
     (if k \<in> set opts \<or> k \<notin> set Object_prototype_methods then Num (count_list ks k)
      else Text (native_function_source k @ replicate (count_list ks k) CHR ''1''))"

text \<open>The property keys one stored value of a multi-select poll increments, one entry
  per increment: the keys of the parsed array's elements up to the first element whose
  conversion throws, and none when the value does not parse as an array.\<close>

fun selected_keys :: "json list \<Rightarrow> string list" where
  "selected_keys [] = []"
| "selected_keys (s # rest) =
     (case ToPropertyKey s of None \<Rightarrow> [] | Some k \<Rightarrow> k # selected_keys rest)"

definition selections :: "(string \<Rightarrow> json option) \<Rightarrow> string \<Rightarrow> string list" where
  "selections parse v = (case parse v of Some (JArray xs) \<Rightarrow> selected_keys xs | _ \<Rightarrow> [])"

text \<open>The key of the uniqueness constraint \<^verbatim>\<open>UNIQUE(poll_id, voter_id)\<close>.\<close>

definition vote_key :: "vote \<Rightarrow> string \<times> string" where
  "vote_key r = (poll_id r, voter_id r)"

definition unique_votes :: "database \<Rightarrow> bool" where
  "unique_votes d \<longleftrightarrow> distinct (map vote_key (votes d))"

text \<open>Polls of the specification's examples; the catalogue of the repository has no
  poll of the types \<^verbatim>\<open>mc-writein\<close>.\<close>

definition poll_of :: "string \<Rightarrow> string list \<Rightarrow> poll" where
  "poll_of t opts = \<lparr>question = ''?'', type = t, options = opts\<rparr>"

text \<open>A request that passes both checks of \<^verbatim>\<open>/api/vote\<close> and whose write the store
  accepts.\<close>

definition accepted :: "poll jsobject \<Rightarrow> environment \<Rightarrow> vote_request \<Rightarrow> bool" where
  "accepted catalogue env req \<longleftrightarrow>
     \<not> falsy_string (req_poll req) \<and> \<not> falsy (req_value req) \<and>
     \<not> falsy_string (req_voterId req) \<and> \<not> no_poll catalogue (the (req_poll req)) \<and>
     storage_error env = None"

text \<open>The submission of a text by a voter at a time, the store working.\<close>

definition ballot :: "nat \<Rightarrow> string \<Rightarrow> string \<Rightarrow> string \<Rightarrow> event" where
  "ballot t p voter x =
     Post_vote \<lparr>now = t, storage_error = None\<rparr>
       \<lparr>req_poll = Some p, req_value = Some (JString x), req_voterId = Some voter\<rparr>"

text \<open>The message that shows a poll of the catalogue with no vote: every declared option
  at zero, and the average of a rating-scale poll at \<^verbatim>\<open>0.0\<close>.\<close>

definition emptied :: "string \<times> poll \<Rightarrow> message" where
  "emptied e =
     Vote_update ''vote'' (fst e)
       \<lparr>total = 0, results = map (\<lambda>opt. Count opt (Num 0)) (options (snd e)),
        writeIns = None,
        average = (if type (snd e) = ''likert'' then Some (Fixed ''0.0'') else None)\<rparr>"

text \<open>The stored values of a rating-scale poll that \<^verbatim>\<open>parseInt\<close> reads as an integer, and
  the arithmetic mean of a list of integers.\<close>

definition parsed_values :: "string list \<Rightarrow> int list" where
  "parsed_values rows = List.map_filter parseInt rows"

definition mean :: "int list \<Rightarrow> rat" where
  "mean ks = of_int (sum_list ks) / of_nat (length ks)"

section \<open>Properties of the counter objects\<close>

lemma insort_key_map:
  "insort_key f (g x) (map g xs) = map g (insort_key (\<lambda>a. f (g a)) x xs)"
  by (induction xs) simp_all

lemma sort_key_map: "sort_key f (map g xs) = map g (sort_key (\<lambda>a. f (g a)) xs)"
  by (induction xs) (simp_all add: insort_key_map)

lemma update_fresh: "k \<notin> fst ` set al \<Longrightarrow> AList.update k v al = al @ [(k, v)]"
  by (induction al) auto

lemma keys_set_prop:
  "map fst (set_prop obj k v) =
     (if k = ''__proto__'' \<or> k \<in> set (map fst obj) then map fst obj else map fst obj @ [k])"
  by (simp add: set_prop_def update_keys)

lemma distinct_set_prop: "distinct (map fst obj) \<Longrightarrow> distinct (map fst (set_prop obj k v))"
  by (simp add: set_prop_def distinct_update)

lemma map_of_set_prop:
  "map_of (set_prop obj k v) k' =
     (if k = ''__proto__'' then map_of obj k' else if k' = k then Some v else map_of obj k')"
  by (simp add: set_prop_def update_conv')

lemma keys_bump:
  "map fst (bump obj k) =
     (if k = ''__proto__'' \<or> k \<in> set (map fst obj) then map fst obj else map fst obj @ [k])"
  by (simp add: bump_def keys_set_prop)

lemma map_of_bump_same:
  "k \<noteq> ''__proto__'' \<Longrightarrow> map_of obj k = Some (Num n) \<Longrightarrow>
   map_of (bump obj k) k = Some (Num (Suc n))"
  by (simp add: bump_def map_of_set_prop get_prop_def or0_plus1_def)

lemma map_of_bump_other: "k' \<noteq> k \<Longrightarrow> map_of (bump obj k) k' = map_of obj k'"
  by (simp add: bump_def map_of_set_prop)

text \<open>Initialising the counters: every declared option but \<^verbatim>\<open>__proto__\<close> gets a slot
  holding zero; on a plain option list the slots stand in declared order.\<close>

lemma map_of_zero_loop:
  "map_of (foldl (\<lambda>counts opt. set_prop counts opt (Num 0)) acc opts) k =
     (if k \<in> set opts \<and> k \<noteq> ''__proto__'' then Some (Num 0) else map_of acc k)"
  by (induction opts arbitrary: acc) (auto simp: map_of_set_prop)

lemma map_of_zero_counts:
  "k \<in> set opts \<Longrightarrow> k \<noteq> ''__proto__'' \<Longrightarrow> map_of (zero_counts opts) k = Some (Num 0)"
  by (simp add: zero_counts_def map_of_zero_loop)

lemma zero_loop_plain:
  "distinct (map fst acc @ opts) \<Longrightarrow> ''__proto__'' \<notin> set opts \<Longrightarrow>
   foldl (\<lambda>counts opt. set_prop counts opt (Num 0)) acc opts =
     acc @ map (\<lambda>opt. (opt, Num 0)) opts"
proof (induction opts arbitrary: acc)
  case Nil
  then show ?case by simp
next
  case (Cons a opts)
  have a: "set_prop acc a (Num 0) = acc @ [(a, Num 0)]"
    using Cons.prems by (auto simp: set_prop_def intro!: update_fresh)
  show ?case using Cons.prems by (simp add: a Cons.IH)
qed

lemma zero_counts_plain:
  "plain_labels opts \<Longrightarrow> zero_counts opts = map (\<lambda>opt. (opt, Num 0)) opts"
  using zero_loop_plain [of "[]" opts]
  by (auto simp: zero_counts_def plain_labels_def list_all_iff)

text \<open>Counting: a slot is never removed or moved, a new key goes to the end, and the
  slot of a key that holds a number grows by one for each occurrence of the key.\<close>

lemma keys_foldl_bump:
  "\<exists>extra. map fst (foldl bump c ks) = map fst c @ extra \<and>
           (distinct (map fst c) \<longrightarrow> distinct (map fst c @ extra))"
proof (induction ks arbitrary: c)
  case Nil
  then show ?case by simp
next
  case (Cons r ks)
  obtain extra where e: "map fst (foldl bump (bump c r) ks) = map fst (bump c r) @ extra"
    "distinct (map fst (bump c r)) \<longrightarrow> distinct (map fst (bump c r) @ extra)"
    using Cons.IH [of "bump c r"] by blast
  show ?case
  proof (cases "r = ''__proto__'' \<or> r \<in> set (map fst c)")
    case True
    then have "map fst (bump c r) = map fst c" by (simp add: keys_bump)
    with e show ?thesis by auto
  next
    case False
    then have k: "map fst (bump c r) = map fst c @ [r]" by (simp add: keys_bump)
    have "map fst (foldl bump c (r # ks)) = map fst c @ (r # extra)"
      using e(1) k by simp
    moreover have "distinct (map fst c) \<longrightarrow> distinct (map fst c @ (r # extra))"
      using e(2) k False by auto
    ultimately show ?thesis by blast
  qed
qed

lemma map_of_foldl_bump:
  "k \<noteq> ''__proto__'' \<Longrightarrow> map_of c k = Some (Num n) \<Longrightarrow>
   map_of (foldl bump c ks) k = Some (Num (n + count_list ks k))"
proof (induction ks arbitrary: c n)
  case Nil
  then show ?case by simp
next
  case (Cons r ks)
  show ?case
  proof (cases "r = k")
    case True
    then have "map_of (bump c r) k = Some (Num (Suc n))"
      using Cons.prems by (simp add: map_of_bump_same)
    from Cons.IH [OF Cons.prems(1) this] True show ?thesis by simp
  next
    case False
    then have "map_of (bump c r) k = Some (Num n)"
      using Cons.prems by (simp add: map_of_bump_other)
    from Cons.IH [OF Cons.prems(1) this] False show ?thesis by simp
  qed
qed

text \<open>\<^verbatim>\<open>Object.entries\<close> permutes the slots; among keys that are no array indices it
  keeps the creation order.\<close>

lemma set_Object_entries: "set (Object_entries obj) = set obj"
  by (auto simp: Object_entries_def)

lemma declared_of_entries:
  assumes "list_all (\<lambda>k. \<not> is_array_index k) opts"
  shows "filter (\<lambda>k. k \<in> set opts) (map fst (Object_entries obj)) =
         filter (\<lambda>k. k \<in> set opts) (map fst obj)"
proof -
  have ni: "\<And>k. k \<in> set opts \<Longrightarrow> \<not> is_array_index k"
    using assms by (simp add: list_all_iff)
  have a: "filter (\<lambda>k. k \<in> set opts)
             (map fst (sort_key (\<lambda>p. decimal_value (fst p))
                         (filter (\<lambda>p. is_array_index (fst p)) obj))) = []"
    using ni by (auto simp: filter_empty_conv)
  have b: "filter (\<lambda>k. k \<in> set opts) (map fst (filter (\<lambda>p. \<not> is_array_index (fst p)) obj)) =
           filter (\<lambda>k. k \<in> set opts) (map fst obj)"
    using ni by (induction obj) auto
  show ?thesis by (simp add: Object_entries_def a b)
qed

lemma labels_entries_of: "map label (entries_of counts) = map fst (Object_entries counts)"
  by (simp add: entries_of_def case_prod_beta comp_def)

lemma Count_in_entries_of: "Count k v \<in> set (entries_of counts) \<longleftrightarrow> (k, v) \<in> set counts"
  by (auto simp: entries_of_def set_Object_entries)

lemma entries_of_plain:
  assumes "plain_labels opts"
  shows "entries_of (map (\<lambda>opt. (opt, Num 0)) opts) = map (\<lambda>opt. Count opt (Num 0)) opts"
proof -
  have "Object_entries (map (\<lambda>opt. (opt, Num 0 :: jsval)) opts) = map (\<lambda>opt. (opt, Num 0)) opts"
    using assms
    by (simp add: Object_entries_def filter_map comp_def list_all_iff filter_empty_conv
        plain_labels_def)
  then show ?thesis by (simp add: entries_of_def comp_def)
qed

lemma simple_count_keys:
  assumes "plain_labels opts"
  shows "filter (\<lambda>k. k \<in> set opts) (map fst (simple_count opts rows)) = opts"
proof -
  have d: "distinct opts" using assms by (simp add: plain_labels_def)
  have kz: "map fst (zero_counts opts) = opts"
    by (simp add: zero_counts_plain [OF assms] comp_def)
  obtain extra where e: "map fst (simple_count opts rows) = opts @ extra" "distinct (opts @ extra)"
    using keys_foldl_bump [of "zero_counts opts" rows] kz d by (auto simp: simple_count_def)
  have "filter (\<lambda>k. k \<in> set opts) extra = []"
    using e(2) by (auto simp: filter_empty_conv)
  then show ?thesis by (simp add: e(1))
qed

lemma simple_count_slot:
  assumes "k \<in> set opts" and "k \<noteq> ''__proto__''"
  shows "(k, Num (count_list rows k)) \<in> set (simple_count opts rows)"
proof -
  have "map_of (simple_count opts rows) k = Some (Num (0 + count_list rows k))"
    unfolding simple_count_def using assms
    by (intro map_of_foldl_bump map_of_zero_counts)
  then show ?thesis by (auto dest: map_of_SomeD)
qed

text \<open>The keys of a counter object: created in the order of first assignment, listed
  with the array indices in front.\<close>

lemma created_alt: "created ks = foldl key_step [] ks"
  by (simp add: created_def)

lemma keys_foldl_set_prop:
  "map fst (foldl (\<lambda>counts opt. set_prop counts opt v) c ks) = foldl key_step (map fst c) ks"
  by (induction ks arbitrary: c) (simp_all add: keys_set_prop key_step_def)

lemma keys_foldl_bump_created: "map fst (foldl bump c ks) = foldl key_step (map fst c) ks"
  by (induction ks arbitrary: c) (simp_all add: keys_bump key_step_def)

lemma keys_zero_counts: "map fst (zero_counts opts) = created opts"
  by (simp add: zero_counts_def keys_foldl_set_prop created_alt)

lemma keys_simple_count: "map fst (foldl bump (zero_counts opts) ks) = created (opts @ ks)"
  by (simp add: keys_foldl_bump_created keys_zero_counts created_alt)

lemma distinct_key_steps: "distinct own \<Longrightarrow> distinct (foldl key_step own ks)"
  by (induction ks arbitrary: own) (simp_all add: key_step_def)

lemma set_key_steps: "set (foldl key_step own ks) = set own \<union> (set ks - {''__proto__''})"
  by (induction ks arbitrary: own) (auto simp: key_step_def)

lemma distinct_created: "distinct (created ks)"
  by (simp add: created_alt distinct_key_steps)

lemma set_created: "set (created ks) = set ks - {''__proto__''}"
  by (simp add: created_alt set_key_steps)

lemma distinct_listed: "distinct (listed ks)"
  by (auto simp: listed_def distinct_created)

lemma set_listed: "set (listed ks) = set ks - {''__proto__''}"
  by (auto simp: listed_def set_created)


lemma key_steps_fresh:
  "distinct ks \<Longrightarrow> ''__proto__'' \<notin> set ks \<Longrightarrow> set ks \<inter> set own = {} \<Longrightarrow>
   foldl key_step own ks = own @ ks"
  by (induction ks arbitrary: own) (auto simp: key_step_def)

lemma created_id: "distinct ks \<Longrightarrow> ''__proto__'' \<notin> set ks \<Longrightarrow> created ks = ks"
  using key_steps_fresh [of ks "[]"] by (simp add: created_alt)

lemma key_steps_extend:
  "distinct own \<Longrightarrow> \<exists>extra. foldl key_step own ks = own @ extra \<and> set extra \<inter> set own = {}"
proof (induction ks arbitrary: own)
  case Nil
  then show ?case by simp
next
  case (Cons k ks)
  show ?case
  proof (cases "k = ''__proto__'' \<or> k \<in> set own")
    case True
    then show ?thesis using Cons by (simp add: key_step_def)
  next
    case False
    then have d: "distinct (own @ [k])" using Cons.prems by simp
    from Cons.IH [OF d] obtain extra where
      "foldl key_step (own @ [k]) ks = (own @ [k]) @ extra" "set extra \<inter> set (own @ [k]) = {}"
      by blast
    then have "foldl key_step own (k # ks) = own @ (k # extra) \<and> set (k # extra) \<inter> set own = {}"
      using False by (auto simp: key_step_def)
    then show ?thesis by blast
  qed
qed

lemma declared_of_created:
  "filter (\<lambda>k. k \<in> set opts) (created (opts @ ks)) = created opts"
proof -
  obtain extra where e: "foldl key_step (created opts) ks = created opts @ extra"
    "set extra \<inter> set (created opts) = {}"
    using key_steps_extend [OF distinct_created, of opts ks] by blast
  have c: "created (opts @ ks) = created opts @ extra"
    using e(1) by (simp add: created_alt)
  have "set extra \<subseteq> set (created (opts @ ks))" by (simp add: c)
  then have np: "''__proto__'' \<notin> set extra" by (auto simp: set_created)
  have "filter (\<lambda>k. k \<in> set opts) extra = []"
    using e(2) np by (auto simp: filter_empty_conv set_created)
  moreover have "filter (\<lambda>k. k \<in> set opts) (created opts) = created opts"
    by (auto simp: filter_id_conv set_created)
  ultimately show ?thesis by (simp add: c)
qed

lemma filter_listing:
  "filter P (sort_key decimal_value (filter is_array_index ks) @ filter (\<lambda>k. \<not> is_array_index k) ks) =
   sort_key decimal_value (filter is_array_index (filter P ks)) @
   filter (\<lambda>k. \<not> is_array_index k) (filter P ks)"
  by (simp add: filter_sort conj_commute)

lemma declared_of_listed:
  "filter (\<lambda>k. k \<in> set opts) (listed (opts @ ks)) = listed opts"
  unfolding listed_def filter_listing declared_of_created ..

lemma takeWhile_dropWhile_split:
  assumes "\<forall>x \<in> set A. P x" and "\<forall>x \<in> set B. \<not> P x"
  shows "takeWhile P (A @ B) = A" and "dropWhile P (A @ B) = B"
proof -
  have "takeWhile P B = []" using assms(2) by (cases B) auto
  then show "takeWhile P (A @ B) = A" using assms(1) by (simp add: takeWhile_append2)
  have "dropWhile P B = B" using assms(2) by (cases B) auto
  then show "dropWhile P (A @ B) = B" using assms(1) by (simp add: dropWhile_append2)
qed

lemma filter_split:
  assumes "\<forall>x \<in> set A. P x" and "\<forall>x \<in> set B. \<not> P x"
  shows "filter P (A @ B) = A" and "filter (\<lambda>x. \<not> P x) (A @ B) = B"
  using assms by (simp_all add: filter_id_conv filter_empty_conv)

lemma listed_id_iff: "listed opts = opts \<longleftrightarrow> keeps_order opts"
proof
  assume l: "listed opts = opts"
  have d: "distinct opts" using distinct_listed [of opts] l by simp
  have np: "''__proto__'' \<notin> set opts" using set_listed [of opts] l by auto
  have c: "created opts = opts" using d np by (rule created_id)
  let ?A = "sort_key decimal_value (filter is_array_index opts)"
  let ?B = "filter (\<lambda>k. \<not> is_array_index k) opts"
  have o: "opts = ?A @ ?B" using l by (simp add: listed_def c)
  have t: "takeWhile is_array_index (?A @ ?B) = ?A" "dropWhile is_array_index (?A @ ?B) = ?B"
    by (rule takeWhile_dropWhile_split; simp)+
  have "sorted (map decimal_value (takeWhile is_array_index opts))"
    by (subst o) (simp only: t sorted_sort_key)
  moreover have "list_all (\<lambda>k. \<not> is_array_index k) (dropWhile is_array_index opts)"
    by (subst o) (simp only: t, simp add: list_all_iff)
  ultimately show "keeps_order opts" using d np by (simp add: keeps_order_def)
next
  assume k: "keeps_order opts"
  then have c: "created opts = opts" by (simp add: keeps_order_def created_id)
  let ?A = "takeWhile is_array_index opts"
  let ?B = "dropWhile is_array_index opts"
  have B: "\<forall>x \<in> set ?B. \<not> is_array_index x" using k by (simp add: keeps_order_def list_all_iff)
  have A: "\<forall>x \<in> set ?A. is_array_index x" by (auto dest: set_takeWhileD)
  have fa: "filter is_array_index opts = ?A"
    and fb: "filter (\<lambda>k. \<not> is_array_index k) opts = ?B"
    using filter_split [OF A B] by simp_all
  have "sort_key decimal_value ?A = ?A"
    using k by (intro sort_key_id_if_sorted) (simp add: keeps_order_def)
  then show "listed opts = opts" by (simp add: listed_def c fa fb)
qed

text \<open>What the slots hold after the count.\<close>

lemma native_function_source_nonempty [simp]: "native_function_source k \<noteq> []"
  by (simp add: native_function_source_def)

lemma map_of_bump_text:
  "k \<noteq> ''__proto__'' \<Longrightarrow> map_of obj k = Some (Text t) \<Longrightarrow> t \<noteq> [] \<Longrightarrow>
   map_of (bump obj k) k = Some (Text (t @ ''1''))"
  by (simp add: bump_def map_of_set_prop get_prop_def or0_plus1_def)

lemma map_of_foldl_bump_text:
  "k \<noteq> ''__proto__'' \<Longrightarrow> map_of c k = Some (Text t) \<Longrightarrow> t \<noteq> [] \<Longrightarrow>
   map_of (foldl bump c ks) k = Some (Text (t @ replicate (count_list ks k) CHR ''1''))"
proof (induction ks arbitrary: c t)
  case Nil
  then show ?case by simp
next
  case (Cons r ks)
  show ?case
  proof (cases "r = k")
    case True
    then have "map_of (bump c r) k = Some (Text (t @ ''1''))"
      using Cons.prems by (simp add: map_of_bump_text)
    from Cons.IH [OF Cons.prems(1) this] True show ?thesis
      by (simp add: replicate_append_same)
  next
    case False
    then have "map_of (bump c r) k = Some (Text t)"
      using Cons.prems by (simp add: map_of_bump_other)
    from Cons.IH [OF Cons.prems(1) this Cons.prems(3)] False show ?thesis by simp
  qed
qed

lemma map_of_bump_fresh:
  "k \<noteq> ''__proto__'' \<Longrightarrow> map_of obj k = None \<Longrightarrow>
   map_of (bump obj k) k =
     Some (if k \<in> set Object_prototype_methods then Text (native_function_source k @ ''1'')
           else Num 1)"
  by (simp add: bump_def map_of_set_prop get_prop_def or0_plus1_def)

lemma map_of_foldl_bump_fresh:
  "k \<noteq> ''__proto__'' \<Longrightarrow> map_of c k = None \<Longrightarrow> k \<in> set ks \<Longrightarrow>
   map_of (foldl bump c ks) k =
     Some (if k \<in> set Object_prototype_methods
           then Text (native_function_source k @ replicate (count_list ks k) CHR ''1'')
           else Num (count_list ks k))"
proof (induction ks arbitrary: c)
  case Nil
  then show ?case by simp
next
  case (Cons r ks)
  show ?case
  proof (cases "r = k")
    case True
    note f = map_of_bump_fresh [OF Cons.prems(1,2)]
    show ?thesis
    proof (cases "k \<in> set Object_prototype_methods")
      case m: True
      have "map_of (bump c r) k = Some (Text (native_function_source k @ ''1''))"
        using f m True by simp
      from map_of_foldl_bump_text [OF Cons.prems(1) this, of ks] m True show ?thesis
        by (simp add: replicate_append_same)
    next
      case m: False
      have "map_of (bump c r) k = Some (Num 1)"
        using f m True by simp
      from map_of_foldl_bump [OF Cons.prems(1) this, of ks] m True show ?thesis by simp
    qed
  next
    case False
    then have "map_of (bump c r) k = None" "k \<in> set ks"
      using Cons.prems by (simp_all add: map_of_bump_other)
    from Cons.IH [OF Cons.prems(1) this] False show ?thesis by simp
  qed
qed

lemma map_of_zero_counts_None: "k \<notin> set opts \<Longrightarrow> map_of (zero_counts opts) k = None"
  by (simp add: zero_counts_def map_of_zero_loop)

lemma map_of_counted:
  assumes "k \<in> set (opts @ ks)" and "k \<noteq> ''__proto__''"
  shows "map_of (foldl bump (zero_counts opts) ks) k = Some (counted opts ks k)"
proof (cases "k \<in> set opts")
  case True
  from map_of_foldl_bump [OF assms(2) map_of_zero_counts [OF True assms(2)], of ks] True
  show ?thesis by (simp add: counted_def)
next
  case False
  then have "k \<in> set ks" using assms(1) by simp
  from map_of_foldl_bump_fresh [OF assms(2) map_of_zero_counts_None [OF False] this] False
  show ?thesis by (simp add: counted_def)
qed

lemma alist_by_keys:
  assumes "distinct (map fst al)"
  shows "al = map (\<lambda>k. (k, the (map_of al k))) (map fst al)"
proof -
  have "map_of al (fst p) = Some (snd p)" if "p \<in> set al" for p
    using assms that by simp
  then have "map ((\<lambda>k. (k, the (map_of al k))) \<circ> fst) al = map (\<lambda>p. p) al"
    by (intro map_cong refl) simp
  then show ?thesis by simp
qed

lemma counts_exact:
  "foldl bump (zero_counts opts) ks = map (\<lambda>k. (k, counted opts ks k)) (created (opts @ ks))"
proof -
  let ?c = "foldl bump (zero_counts opts) ks"
  have k: "map fst ?c = created (opts @ ks)" by (rule keys_simple_count)
  then have "distinct (map fst ?c)" by (simp add: distinct_created)
  then have "?c = map (\<lambda>k. (k, the (map_of ?c k))) (created (opts @ ks))"
    using alist_by_keys [of ?c] k by simp
  also have "\<dots> = map (\<lambda>k. (k, counted opts ks k)) (created (opts @ ks))"
    by (intro map_cong refl) (simp add: set_created map_of_counted)
  finally show ?thesis .
qed

lemma Object_entries_by_keys:
  "Object_entries (map (\<lambda>k. (k, f k)) ks) =
   map (\<lambda>k. (k, f k))
     (sort_key decimal_value (filter is_array_index ks) @ filter (\<lambda>k. \<not> is_array_index k) ks)"
  by (simp add: Object_entries_def filter_map comp_def sort_key_map)

lemma entries_exact:
  "entries_of (foldl bump (zero_counts opts) ks) =
   map (\<lambda>k. Count k (counted opts ks k)) (listed (opts @ ks))"
  by (simp add: counts_exact entries_of_def Object_entries_by_keys listed_def comp_def)


section \<open>Properties of the store, the hub and the routes\<close>

lemma vote_key_overwrite [simp]: "vote_key (r\<lparr>val := x, created_at := t\<rparr>) = vote_key r"
  by (simp add: vote_key_def)

lemma conflicts_key: "conflicts p v r \<longleftrightarrow> vote_key r = (p, v)"
  by (auto simp: conflicts_def vote_key_def)

lemma votes_upsert_existing:
  "list_ex (conflicts p v) (votes d) \<Longrightarrow>
   votes (upsertVote t p v x d) =
     map (\<lambda>r. if conflicts p v r then r\<lparr>val := x, created_at := t\<rparr> else r) (votes d)"
  by (simp add: upsertVote_def)

lemma votes_upsert_new:
  "\<not> list_ex (conflicts p v) (votes d) \<Longrightarrow>
   votes (upsertVote t p v x d) =
     votes d @ [\<lparr>row_id = next_rowid d, poll_id = p, voter_id = v, val = x, created_at = t\<rparr>]"
  by (simp add: upsertVote_def)

lemma keys_upsert_existing:
  "map (vote_key \<circ> (\<lambda>r. if conflicts p v r then r\<lparr>val := x, created_at := t\<rparr> else r)) rs =
   map vote_key rs"
  by (induction rs) auto

lemma unique_upsertVote: "unique_votes d \<Longrightarrow> unique_votes (upsertVote t p v x d)"
proof (cases "list_ex (conflicts p v) (votes d)")
  case True
  assume "unique_votes d"
  then show ?thesis
    by (simp add: unique_votes_def votes_upsert_existing [OF True] keys_upsert_existing)
next
  case False
  assume u: "unique_votes d"
  have "(p, v) \<notin> set (map vote_key (votes d))"
    using False by (auto simp: list_ex_iff conflicts_key)
  then show ?thesis
    using u by (simp add: unique_votes_def votes_upsert_new [OF False] vote_key_def)
qed


lemma length_index_rows:
  "length (index_rows d p) = length (filter (\<lambda>r. poll_id r = p) (votes d))"
  by (simp add: index_rows_def)

lemma sorted_index_rows: "sorted (map voter_id (index_rows d p))"
  by (simp add: index_rows_def)

lemma distinct_voters:
  "distinct (map vote_key rs) \<Longrightarrow> distinct (map voter_id (filter (\<lambda>r. poll_id r = p) rs))"
  by (induction rs) (auto simp: vote_key_def image_iff)

lemma index_rows_upsert_existing:
  assumes "list_ex (conflicts p v) (votes d)"
  shows "index_rows (upsertVote t p v x d) q =
     map (\<lambda>r. if conflicts p v r then r\<lparr>val := x, created_at := t\<rparr> else r) (index_rows d q)"
proof -
  let ?g = "\<lambda>r. if conflicts p v r then r\<lparr>val := x, created_at := t\<rparr> else r"
  have f: "filter (\<lambda>r. poll_id r = q) (map ?g rs) = map ?g (filter (\<lambda>r. poll_id r = q) rs)" for rs
    by (induction rs) auto
  have k: "(\<lambda>a. voter_id (?g a)) = voter_id" by (auto simp: fun_eq_iff)
  show ?thesis
    by (simp add: index_rows_def votes_upsert_existing [OF assms] f sort_key_map k)
qed

lemma length_getVotes:
  "length (getVotes d p) = length (filter (\<lambda>r. poll_id r = p) (votes d))"
  by (simp add: getVotes_def length_index_rows)

lemma length_getVotes_upsert_existing:
  "list_ex (conflicts p v) (votes d) \<Longrightarrow>
   length (getVotes (upsertVote t p v x d) q) = length (getVotes d q)"
  by (simp add: getVotes_def index_rows_upsert_existing)





lemma getVotes_clearAll [simp]: "getVotes (clearAll d) p = []"
  by (simp add: getVotes_def index_rows_def clearAll_def)

lemma total_aggregate [simp]: "total (aggregate parse poll rows) = length rows"
  by (simp add: aggregate_def split: prod.split)

lemma aggregateResults_Own:
  "get_prop catalogue p = Own poll \<Longrightarrow>
   aggregateResults parse catalogue d p = aggregate parse poll (getVotes d p)"
  by (simp add: aggregateResults_def)

lemma rows_are_voters:
  assumes "unique_votes d"
  shows "length (filter (\<lambda>r. poll_id r = p) (votes d)) =
         card (voter_id ` {r \<in> set (votes d). poll_id r = p})"
proof -
  have "distinct (map voter_id (filter (\<lambda>r. poll_id r = p) (votes d)))"
    using assms by (simp add: unique_votes_def distinct_voters)
  from distinct_card [OF this] show ?thesis by simp
qed

lemma total_aggregateResults:
  "total (aggregateResults parse catalogue d p) =
     (if no_poll catalogue p then 0 else length (getVotes d p))"
  by (simp add: aggregateResults_def no_poll_def Let_def split: property.split)

lemma db_broadcast [simp]: "db (broadcast msg srv) = db srv"
  and published_broadcast [simp]: "published (broadcast msg srv) = published srv @ [msg]"
  and upsert_calls_broadcast [simp]: "upsert_calls (broadcast msg srv) = upsert_calls srv"
  and clients_broadcast: "clients (broadcast msg srv) = send_all msg (clients srv)"
  by (simp_all add: broadcast_def)

lemma send_all_map:
  "send_all msg wss =
     map (\<lambda>ws. case ws_send ws msg of Inl err \<Rightarrow> ws | Inr ws' \<Rightarrow> ws') wss"
  by (induction wss) (auto split: sum.split)

lemma reset_loop:
  "getVotes (db s0) = (\<lambda>p. []) \<Longrightarrow>
   published (foldl (\<lambda>s pid. broadcast (Vote_update ''vote'' pid
       (aggregateResults parse catalogue (db s) pid)) s) s0 pids) =
   published s0 @ map (\<lambda>pid. Vote_update ''vote'' pid
       (aggregateResults parse catalogue (db s0) pid)) pids"
proof (induction pids arbitrary: s0)
  case Nil
  then show ?case by simp
next
  case (Cons pid pids)
  show ?case
    using Cons.prems Cons.IH [of "broadcast (Vote_update ''vote'' pid
       (aggregateResults parse catalogue (db s0) pid)) s0"]
    by simp
qed

lemma db_api_reset: "votes (db (snd (api_reset parse catalogue srv))) = []"
proof -
  have "db (foldl (\<lambda>s pid. broadcast (Vote_update ''vote'' pid
            (aggregateResults parse catalogue (db s) pid)) s) s0 pids) = db s0" for s0 pids
    by (induction pids arbitrary: s0) auto
  then show ?thesis by (simp add: api_reset_def Let_def clearAll_def)
qed

lemma db_api_vote:
  "db (snd (api_vote parse stringify catalogue env req srv)) = db srv \<or>
   (\<exists>x. db (snd (api_vote parse stringify catalogue env req srv)) =
      upsertVote (now env) (the (req_poll req)) (the (req_voterId req)) x (db srv))"
  by (auto simp: api_vote_def Let_def upsertVote_run_def split: option.split sum.split)

lemma api_vote_accepted:
  assumes "accepted catalogue env req"
  shows "db (snd (api_vote parse stringify catalogue env req srv)) =
           upsertVote (now env) (the (req_poll req)) (the (req_voterId req))
             (stored_text stringify (the (req_value req))) (db srv)"
    and "fst (api_vote parse stringify catalogue env req srv) = \<lparr>status = 200, body = Ok\<rparr>"
  using assms
  by (simp_all add: accepted_def api_vote_def Let_def upsertVote_run_def)

lemma unique_step:
  "unique_votes (db srv) \<Longrightarrow> unique_votes (db (step parse stringify catalogue srv e))"
proof (cases e)
  case (Post_vote env req)
  assume "unique_votes (db srv)"
  then show ?thesis
    using db_api_vote [of parse stringify catalogue env req srv] Post_vote
    by (auto simp: step_def unique_upsertVote)
next
  case Get_reset
  then show ?thesis by (simp add: step_def unique_votes_def db_api_reset)
qed (auto simp: step_def)

lemma unique_run:
  "unique_votes (db srv) \<Longrightarrow> unique_votes (db (run parse stringify catalogue srv es))"
  unfolding run_def by (induction es arbitrary: srv) (auto simp: unique_step)

lemma run_simps:
  "run parse stringify catalogue srv [] = srv"
  "run parse stringify catalogue srv (e # es) =
     run parse stringify catalogue (step parse stringify catalogue srv e) es"
  by (simp_all add: run_def)

lemma db_ballot:
  "p \<noteq> [] \<Longrightarrow> voter \<noteq> [] \<Longrightarrow> x \<noteq> [] \<Longrightarrow> \<not> no_poll catalogue p \<Longrightarrow>
   db (step parse stringify catalogue srv (ballot t p voter x)) = upsertVote t p voter x (db srv)"
  using api_vote_accepted(1) [of catalogue "\<lparr>now = t, storage_error = None\<rparr>"
      "\<lparr>req_poll = Some p, req_value = Some (JString x), req_voterId = Some voter\<rparr>"
      parse stringify srv]
  by (simp add: step_def ballot_def accepted_def falsy_string_def falsy_def stored_text_def)

text \<open>The catalogue of the repository.\<close>

lemma POLLS_known:
  "\<not> no_poll POLLS ''1''" "\<not> no_poll POLLS ''2''" "\<not> no_poll POLLS ''3''"
  "\<not> no_poll POLLS ''4''" "\<not> no_poll POLLS ''5''" "\<not> no_poll POLLS ''6''"
  by (simp_all add: no_poll_def get_prop_def POLLS_def)

lemma Object_keys_POLLS: "Object_keys POLLS = [''1'', ''2'', ''3'', ''4'', ''5'', ''6'']"
  by (simp add: Object_keys_def Object_entries_def POLLS_def is_array_index_def is_digit_def
      decimal_value_def digit_value_def)

lemma plain_POLLS: "list_all (\<lambda>e. plain_labels (options (snd e))) POLLS"
  by (simp add: POLLS_def plain_labels_def is_array_index_def is_digit_def em_dash_def)

lemma likert_average_Nil: "likert_average [] = Fixed ''0.0''"
  by (simp add: likert_average_def)

lemma aggregate_no_votes:
  assumes "plain_labels (options poll)" and "type poll = ''open'' \<longrightarrow> options poll = []"
    and "type poll \<noteq> ''mc-writein''"
  shows "aggregate parse poll [] =
     \<lparr>total = 0, results = map (\<lambda>opt. Count opt (Num 0)) (options poll), writeIns = None,
      average = (if type poll = ''likert'' then Some (Fixed ''0.0'') else None)\<rparr>"
  using assms
  by (simp add: aggregate_def simple_count_def zero_counts_plain entries_of_plain
      likert_average_Nil)

lemma aggregateResults_POLLS_empty:
  assumes "getVotes d = (\<lambda>p. [])"
  shows "map (\<lambda>pid. Vote_update ''vote'' pid (aggregateResults parse POLLS d pid))
           [''1'', ''2'', ''3'', ''4'', ''5'', ''6''] = map emptied POLLS"
proof -
  have a: "aggregateResults parse POLLS d pid = aggregate parse poll []"
    if "map_of POLLS pid = Some poll" for pid poll
    using that assms by (simp add: aggregateResults_def get_prop_def)
  have b: "aggregate parse (snd e) [] =
      \<lparr>total = 0, results = map (\<lambda>opt. Count opt (Num 0)) (options (snd e)), writeIns = None,
       average = (if type (snd e) = ''likert'' then Some (Fixed ''0.0'') else None)\<rparr>"
    if "e \<in> set POLLS" for e
  proof (rule aggregate_no_votes)
    show "plain_labels (options (snd e))"
      using plain_POLLS that by (simp add: list_all_iff)
    show "type (snd e) = ''open'' \<longrightarrow> options (snd e) = []"
      using that by (auto simp: POLLS_def)
    show "type (snd e) \<noteq> ''mc-writein''"
      using that by (auto simp: POLLS_def)
  qed
  have c: "Vote_update ''vote'' (fst e) (aggregateResults parse POLLS d (fst e)) = emptied e"
    if "e \<in> set POLLS" for e
  proof -
    have "map_of POLLS (fst e) = Some (snd e)"
      using that by (auto simp: POLLS_def)
    then show ?thesis using b [OF that] by (simp add: a emptied_def)
  qed
  have "map (\<lambda>pid. Vote_update ''vote'' pid (aggregateResults parse POLLS d pid)) (map fst POLLS) =
        map emptied POLLS"
    using c by (simp add: comp_def)
  moreover have "map fst POLLS = [''1'', ''2'', ''3'', ''4'', ''5'', ''6'']"
    by (simp add: POLLS_def)
  ultimately show ?thesis by simp
qed

section \<open>Properties of the multi-select and write-in loops\<close>

lemma tally_selected_keys: "tally_selected counts xs = foldl bump counts (selected_keys xs)"
  by (induction xs arbitrary: counts) (auto split: option.split)

lemma tally_row_selections: "tally_row parse counts v = foldl bump counts (selections parse v)"
  by (simp add: tally_row_def selections_def tally_selected_keys
      split: option.split json.split)

lemma tally_rows_concat:
  "foldl (tally_row parse) counts rows = foldl bump counts (concat (map (selections parse) rows))"
  by (induction rows arbitrary: counts) (simp_all add: tally_row_selections)

lemma selected_keys_strings: "selected_keys (map JString ls) = ls"
  by (induction ls) simp_all

lemma multi_entries_exact:
  "entries_of (foldl (tally_row parse) (zero_counts opts) rows) =
   map (\<lambda>k. Count k (counted opts (concat (map (selections parse) rows)) k))
     (listed (opts @ concat (map (selections parse) rows)))"
  by (simp only: tally_rows_concat entries_exact)

lemma count_list_concat:
  "count_list (concat xss) k = sum_list (map (\<lambda>xs. count_list xs k) xss)"
  by (induction xss) simp_all

lemma count_list_distinct: "distinct xs \<Longrightarrow> count_list xs k = (if k \<in> set xs then 1 else 0)"
  by (induction xs) auto

lemma sum_list_indicator:
  "sum_list (map (\<lambda>x. if P x then 1 else 0) xs) = length (filter P xs)"
  by (induction xs) simp_all










section \<open>Properties of the number functions\<close>

text \<open>Powers of two, and the exponent \<open>floor_log2\<close> computes.\<close>

lemma pow2_powi: "pow2 e = 2 powi e"
  by (simp add: pow2_def power_int_def inverse_eq_divide power_one_over)

lemma pow2_pos [simp]: "0 < pow2 e"
  by (simp add: pow2_powi)

lemma pow2_add: "pow2 (a + b) = pow2 a * pow2 b"
  by (simp add: pow2_powi power_int_add)

lemma pow2_nat: "0 \<le> e \<Longrightarrow> pow2 e = 2 ^ nat e"
  by (simp add: pow2_def)

lemma pow2_mono: "a \<le> b \<Longrightarrow> pow2 a \<le> pow2 b"
  by (simp add: pow2_powi power_int_increasing)

lemma pow2_Suc: "pow2 (e + 1) = 2 * pow2 e"
proof -
  have "pow2 1 = 2" by (simp add: pow2_def)
  then show ?thesis by (simp add: pow2_add)
qed

lemma pow2_pred: "pow2 (e - 1) = pow2 e / 2"
  using pow2_Suc [of "e - 1"] by simp

lemma floor_log2_bounds:
  assumes "0 < q"
  shows "pow2 (floor_log2 q) \<le> q" and "q < pow2 (floor_log2 q + 1)"
proof -
  obtain a b where ab: "quotient_of q = (a, b)" by (cases "quotient_of q")
  have b: "0 < b" using ab quotient_of_denom_pos by blast
  have q: "q = of_int a / of_int b" using ab by (rule quotient_of_div)
  have a: "0 < a" using assms b by (simp add: q zero_less_divide_iff)
  let ?d = "bitlen a - bitlen b"
  have la: "(2::rat) ^ nat (bitlen a - 1) \<le> of_int a" "of_int a < (2::rat) ^ nat (bitlen a)"
    using bitlen_bounds [OF a]
    by (metis of_int_le_iff of_int_numeral of_int_power, metis of_int_less_iff of_int_numeral of_int_power)
  have lb: "(2::rat) ^ nat (bitlen b - 1) \<le> of_int b" "of_int b < (2::rat) ^ nat (bitlen b)"
    using bitlen_bounds [OF b]
    by (metis of_int_le_iff of_int_numeral of_int_power, metis of_int_less_iff of_int_numeral of_int_power)
  have pa: "0 < bitlen a" "0 < bitlen b"
    using a b bitlen_eq_zero_iff [of a] bitlen_eq_zero_iff [of b] bitlen_nonneg [of a]
      bitlen_nonneg [of b] by linarith+
  have A: "pow2 (bitlen a - 1) \<le> of_int a" "of_int a < pow2 (bitlen a)"
    using la pa by (simp_all add: pow2_nat)
  have B: "pow2 (bitlen b - 1) \<le> of_int b" "of_int b < pow2 (bitlen b)"
    using lb pa by (simp_all add: pow2_nat)
  have up: "q < pow2 (?d + 1)"
  proof -
    have "of_int a < pow2 (bitlen a)" by (rule A)
    also have "\<dots> = pow2 (?d + 1) * pow2 (bitlen b - 1)"
      by (simp add: pow2_add [symmetric])
    also have "\<dots> \<le> pow2 (?d + 1) * of_int b"
      using B(1) by (simp add: mult_left_mono less_imp_le)
    finally show ?thesis using b by (simp add: q pos_divide_less_eq)
  qed
  have lo: "pow2 (?d - 1) < q"
  proof -
    have "pow2 (?d - 1) * of_int b < pow2 (?d - 1) * pow2 (bitlen b)"
      using B(2) by (simp add: mult_strict_left_mono)
    also have "\<dots> = pow2 (bitlen a - 1)"
      by (simp add: pow2_add [symmetric])
    also have "\<dots> \<le> of_int a" by (rule A)
    finally show ?thesis using b by (simp add: q pos_less_divide_eq)
  qed
  show "pow2 (floor_log2 q) \<le> q"
    using lo by (simp add: floor_log2_def ab Let_def less_imp_le)
  show "q < pow2 (floor_log2 q + 1)"
    using up by (simp add: floor_log2_def ab Let_def not_le)
qed

text \<open>Rounding to a double: the result has the sign of the argument, the relative error
  is at most \<open>2\<^sup>-\<^sup>5\<^sup>3\<close>, and the integers up to \<open>2\<^sup>5\<^sup>3\<close> in magnitude are doubles.\<close>

lemma round_half_even_error: "\<bar>of_int (round_half_even x) - x\<bar> \<le> 1 / 2"
proof -
  have "of_int \<lfloor>x\<rfloor> \<le> x" "x < of_int \<lfloor>x\<rfloor> + 1" by linarith+
  then show ?thesis
    by (auto simp: round_half_even_def Let_def abs_le_iff)
qed

lemma round_half_even_int [simp]: "round_half_even (of_int j) = j"
  by (simp add: round_half_even_def)

lemma round_half_even_ge: "of_int j \<le> x \<Longrightarrow> j \<le> round_half_even x"
proof -
  assume "of_int j \<le> x"
  then have "j \<le> \<lfloor>x\<rfloor>" by (simp add: le_floor_iff)
  then show ?thesis by (auto simp: round_half_even_def Let_def)
qed

lemma pow2_neq0 [simp]: "pow2 e \<noteq> 0"
  by (simp add: pow2_powi)

lemma to_double_minus: "to_double (- q) = - to_double q"
  by (simp add: to_double_def Let_def)

lemma to_double_pos:
  assumes "0 < q"
  shows "0 < to_double q" and "\<bar>to_double q - q\<bar> \<le> q / 2 ^ 53"
proof -
  let ?e = "floor_log2 q - 52"
  let ?m = "round_half_even (q / pow2 ?e)"
  have d: "to_double q = of_int ?m * pow2 ?e"
    using assms by (simp add: to_double_def Let_def)
  have lo: "pow2 (floor_log2 q) \<le> q"
    by (rule floor_log2_bounds(1) [OF assms])
  have "pow2 52 = 2 ^ 52" by (simp add: pow2_def)
  then have p52: "pow2 (floor_log2 q) = pow2 ?e * 2 ^ 52"
    using pow2_add [of ?e 52] by simp
  have "of_int (2 ^ 52) \<le> q / pow2 ?e"
    using lo by (simp add: p52 pos_le_divide_eq mult.commute)
  then have m: "2 ^ 52 \<le> ?m" by (rule round_half_even_ge)
  moreover have "(0::int) < 2 ^ 52" by simp
  ultimately have "0 < ?m" by linarith
  then show "0 < to_double q" by (simp add: d)
  have "\<bar>of_int ?m - q / pow2 ?e\<bar> \<le> 1 / 2" by (rule round_half_even_error)
  then have "\<bar>of_int ?m - q / pow2 ?e\<bar> * pow2 ?e \<le> 1 / 2 * pow2 ?e"
    by (rule mult_right_mono) (simp add: less_imp_le)
  moreover have "\<bar>of_int ?m - q / pow2 ?e\<bar> * pow2 ?e = \<bar>to_double q - q\<bar>"
  proof -
    have "\<bar>of_int ?m - q / pow2 ?e\<bar> * pow2 ?e = \<bar>(of_int ?m - q / pow2 ?e) * pow2 ?e\<bar>"
      by (simp add: abs_mult abs_of_pos)
    also have "(of_int ?m - q / pow2 ?e) * pow2 ?e = to_double q - q"
      using pow2_pos [of ?e] by (simp add: d left_diff_distrib)
    finally show ?thesis .
  qed
  ultimately have "\<bar>to_double q - q\<bar> \<le> pow2 ?e / 2" by simp
  also have "pow2 ?e / 2 = pow2 (floor_log2 q) / 2 ^ 53"
    by (simp add: p52)
  also have "\<dots> \<le> q / 2 ^ 53"
    using lo by (simp add: divide_right_mono)
  finally show "\<bar>to_double q - q\<bar> \<le> q / 2 ^ 53" .
qed

lemma to_double_error: "\<bar>to_double q - q\<bar> \<le> \<bar>q\<bar> / 2 ^ 53"
proof (cases "q = 0")
  case True
  then show ?thesis by (simp add: to_double_def)
next
  case False
  show ?thesis
  proof (cases "0 < q")
    case True
    then show ?thesis using to_double_pos(2) [OF True] by simp
  next
    case False
    with \<open>q \<noteq> 0\<close> have n: "0 < - q" by simp
    have "\<bar>to_double q - q\<bar> = \<bar>to_double (- q) - (- q)\<bar>"
      by (simp add: to_double_minus)
    also have "\<dots> \<le> (- q) / 2 ^ 53" by (rule to_double_pos(2) [OF n])
    finally show ?thesis using n by simp
  qed
qed

lemma to_double_sign: "to_double q < 0 \<longleftrightarrow> q < 0"
proof (cases "q = 0")
  case True
  then show ?thesis by (simp add: to_double_def)
next
  case False
  show ?thesis
  proof (cases "0 < q")
    case True
    then show ?thesis using to_double_pos(1) [OF True] by simp
  next
    case False
    with \<open>q \<noteq> 0\<close> have n: "0 < - q" by simp
    have "0 < to_double (- q)" by (rule to_double_pos(1) [OF n])
    then show ?thesis using n by (simp add: to_double_minus)
  qed
qed

lemma to_double_abs: "\<bar>to_double q\<bar> = to_double \<bar>q\<bar>"
proof (cases "q < 0")
  case True
  then have "to_double q < 0" by (simp add: to_double_sign)
  then show ?thesis using True by (simp add: to_double_minus)
next
  case False
  then have "\<not> to_double q < 0" by (simp add: to_double_sign)
  then show ?thesis using False by simp
qed

lemma to_double_nat_exact:
  assumes "0 < k" and "k \<le> 2 ^ 53"
  shows "to_double (of_int k) = of_int k"
proof -
  let ?q = "of_int k :: rat"
  let ?e = "floor_log2 ?q - 52"
  have q: "0 < ?q" using assms by simp
  have d: "to_double ?q = of_int (round_half_even (?q / pow2 ?e)) * pow2 ?e"
    using q by (simp add: to_double_def Let_def)
  have lo: "pow2 (?e + 52) \<le> ?q"
    using floor_log2_bounds(1) [OF q] by simp
  have lo': "pow2 (floor_log2 ?q) \<le> ?q"
    by (rule floor_log2_bounds(1) [OF q])
  have le53: "?q \<le> pow2 53" using assms by (simp add: pow2_def) 
  have e1: "?e \<le> 1"
  proof (rule ccontr)
    assume "\<not> ?e \<le> 1"
    then have "54 \<le> ?e + 52" by simp
    then have "pow2 54 \<le> pow2 (?e + 52)" by (rule pow2_mono)
    with lo le53 have "pow2 54 \<le> pow2 53" by linarith
    then show False by (simp add: pow2_def)
  qed
  show ?thesis
  proof (cases "?e \<le> 0")
    case True
    then have "pow2 ?e = 1 / 2 ^ nat (- ?e)"
      by (cases "?e = 0") (simp_all add: pow2_def)
    then have i: "?q / pow2 ?e = of_int (k * 2 ^ nat (- ?e))" by simp
    have "round_half_even (?q / pow2 ?e) = k * 2 ^ nat (- ?e)"
      unfolding i by (rule round_half_even_int)
    then show ?thesis
      unfolding d using \<open>pow2 ?e = 1 / 2 ^ nat (- ?e)\<close> by simp
  next
    case False
    with e1 have e: "?e = 1" by simp
    have "pow2 53 \<le> ?q" using lo by (simp add: e)
    with le53 have "?q = pow2 53" by simp
    then have k: "?q = 2 ^ 53" by (simp add: pow2_def)
    have pe: "pow2 ?e = 2" using e by (simp add: pow2_def)
    have d': "to_double ?q = of_int (round_half_even (?q / 2)) * 2"
      using d pe by simp
    have i: "?q / 2 = of_int (2 ^ 52)"
      using k by simp
    have r: "round_half_even (?q / 2) = 2 ^ 52"
      unfolding i by (rule round_half_even_int)
    show ?thesis unfolding d' r using k by simp
  qed
qed

lemma to_double_int_exact: "\<bar>k\<bar> \<le> 2 ^ 53 \<Longrightarrow> to_double (of_int k) = of_int k"
proof -
  assume a: "\<bar>k\<bar> \<le> 2 ^ 53"
  consider "k = 0" | "0 < k" | "k < 0" by linarith
  then show ?thesis
  proof cases
    case 1
    then show ?thesis by (simp add: to_double_def)
  next
    case 2
    then show ?thesis using a by (simp add: to_double_nat_exact)
  next
    case 3
    then have "to_double (of_int (- k)) = of_int (- k)"
      using a by (intro to_double_nat_exact) auto
    then show ?thesis by (simp add: to_double_minus)
  qed
qed

text \<open>The loop of the average adds exactly as long as the sums stay within \<open>2\<^sup>5\<^sup>3\<close>;
  and below \<open>2\<^sup>5\<^sup>3 / 20\<close> the rounding of the quotient to a double cannot carry it across
  a midpoint between two tenths.\<close>

lemma parsed_values_simps:
  "parsed_values [] = []"
  "parsed_values (v # vs) =
     (case parseInt v of None \<Rightarrow> parsed_values vs | Some k \<Rightarrow> k # parsed_values vs)"
  by (simp_all add: parsed_values_def map_filter_simps split: option.split)

lemma mean_loop_exact:
  "\<bar>a\<bar> + (\<Sum>k\<leftarrow>parsed_values vals. \<bar>k\<bar>) \<le> 2 ^ 53 \<Longrightarrow>
   mean_loop (of_int a, n) vals =
     (of_int (a + sum_list (parsed_values vals)), n + length (parsed_values vals))"
proof (induction vals arbitrary: a n)
  case Nil
  then show ?case by (simp add: parsed_values_simps)
next
  case (Cons v vs)
  show ?case
  proof (cases "parseInt v")
    case None
    then show ?thesis using Cons by (simp add: parsed_values_simps)
  next
    case (Some k)
    have b: "\<bar>a\<bar> + \<bar>k\<bar> + (\<Sum>k\<leftarrow>parsed_values vs. \<bar>k\<bar>) \<le> 2 ^ 53"
      using Cons.prems Some by (simp add: parsed_values_simps)
    have nn: "0 \<le> (\<Sum>k\<leftarrow>parsed_values vs. \<bar>k\<bar>)"
      by (rule sum_list_nonneg) auto
    have k: "to_double (of_int k) = of_int k"
      using b nn by (intro to_double_int_exact) linarith
    have ak: "to_double (of_int a + of_int k) = of_int (a + k)"
      using b nn to_double_int_exact [of "a + k"] by simp
    have ih: "\<bar>a + k\<bar> + (\<Sum>k\<leftarrow>parsed_values vs. \<bar>k\<bar>) \<le> 2 ^ 53"
      using b by linarith
    show ?thesis
      using Cons.IH [OF ih, of "n + 1"] Some
      by (simp add: parsed_values_simps k ak)
  qed
qed

lemma abs_sum_list_le: "\<bar>sum_list ks\<bar> \<le> (\<Sum>k\<leftarrow>ks. \<bar>k :: int\<bar>)"
  by (induction ks) auto

lemma member_le_sum_abs: "k \<in> set ks \<Longrightarrow> \<bar>k :: int\<bar> \<le> (\<Sum>k\<leftarrow>ks. \<bar>k\<bar>)"
proof (induction ks)
  case Nil
  then show ?case by simp
next
  case (Cons a ks)
  have "0 \<le> (\<Sum>k\<leftarrow>ks. \<bar>k\<bar>)" by (rule sum_list_nonneg) auto
  with Cons show ?case by auto
qed

lemma parsed_values_member:
  "parseInt v = Some k \<Longrightarrow> v \<in> set vals \<Longrightarrow> k \<in> set (parsed_values vals)"
  by (induction vals) (auto simp: parsed_values_simps split: option.split)

lemma not_beyond_20_digits:
  assumes "(\<Sum>k\<leftarrow>parsed_values vals. \<bar>k\<bar>) \<le> 2 ^ 53"
  shows "\<not> list_ex beyond_20_digits vals"
proof
  assume "list_ex beyond_20_digits vals"
  then obtain v k where v: "v \<in> set vals" "parseInt v = Some k" "10 ^ 20 \<le> \<bar>k\<bar>"
    by (auto simp: list_ex_iff beyond_20_digits_def split: option.splits)
  have "\<bar>k\<bar> \<le> (\<Sum>k\<leftarrow>parsed_values vals. \<bar>k\<bar>)"
    using v by (intro member_le_sum_abs parsed_values_member)
  with assms v(3) show False by simp
qed

lemma nearest_tenth_of_double:
  fixes S :: int and n :: nat
  assumes "0 \<le> S" and "20 * S < 2 ^ 53" and "0 < n"
  shows "\<bar>of_int (nearest_tenth (to_double (of_int S / of_nat n))) / 10 - of_int S / of_nat n\<bar>
           \<le> (1 / 20 :: rat)"
proof -
  define SS :: rat where "SS = of_int S"
  define nn :: rat where "nn = of_nat n"
  define q where "q = SS / nn"
  define d where "d = to_double q"
  define F where "F = \<lfloor>10 * d + 1 / 2\<rfloor>"
  have nn: "0 < nn" using assms(3) by (simp add: nn_def)
  have SS: "0 \<le> SS" "20 * SS < 2 ^ 53"
    using assms(1,2) unfolding SS_def
    by (simp, metis of_int_less_iff of_int_mult of_int_numeral of_int_power)
  have q0: "0 \<le> q" using nn SS by (simp add: q_def)
  have qn: "q * nn = SS" using nn by (simp add: q_def)
  have err: "\<bar>d - q\<bar> \<le> q / 2 ^ 53"
    using to_double_error [of q] q0 by (simp add: d_def)
  have d0: "0 \<le> d"
    using to_double_sign [of q] q0 by (simp add: d_def not_less)
  have F0: "0 \<le> F" using d0 by (simp add: F_def)
  have Fb: "of_int F \<le> 10 * d + 1 / 2" "10 * d + 1 / 2 < of_int F + 1"
    unfolding F_def by linarith+
  have N: "of_int (nearest_tenth d) = (of_int F :: rat)"
    by (simp add: nearest_tenth_def F_def)
  have en: "\<bar>d - q\<bar> * nn \<le> SS / 2 ^ 53"
  proof -
    have "\<bar>d - q\<bar> * nn \<le> q / 2 ^ 53 * nn"
      using err nn by (simp add: mult_right_mono)
    then show ?thesis using qn by (simp add: field_simps)
  qed
  have dn: "\<bar>d * nn - SS\<bar> \<le> SS / 2 ^ 53"
  proof -
    have "\<bar>d - q\<bar> * nn = \<bar>(d - q) * nn\<bar>" using nn by (simp add: abs_mult abs_of_pos)
    also have "(d - q) * nn = d * nn - SS" using qn by (simp add: left_diff_distrib)
    finally show ?thesis using en by simp
  qed
  have up: "20 * SS \<le> (2 * of_int F + 1) * nn"
  proof (rule ccontr)
    assume "\<not> 20 * SS \<le> (2 * of_int F + 1) * nn"
    then have "of_int ((2 * F + 1) * int n) < (of_int (20 * S) :: rat)"
      by (simp add: SS_def nn_def)
    then have "(2 * F + 1) * int n < 20 * S" by (simp only: of_int_less_iff)
    then have "(2 * F + 1) * int n + 1 \<le> 20 * S" by simp
    then have "(of_int ((2 * F + 1) * int n + 1) :: rat) \<le> of_int (20 * S)"
      by (simp only: of_int_le_iff)
    then have i: "(2 * of_int F + 1) * nn + 1 \<le> 20 * SS"
      by (simp add: SS_def nn_def)
    have "20 * d < 2 * of_int F + 1" using Fb(2) by simp
    then have "20 * d * nn < (2 * of_int F + 1) * nn"
      using nn by (simp add: mult_strict_right_mono)
    with i dn SS show False by (simp add: abs_le_iff)
  qed
  have lo: "(2 * of_int F - 1) * nn \<le> 20 * SS"
  proof (rule ccontr)
    assume "\<not> (2 * of_int F - 1) * nn \<le> 20 * SS"
    then have "(of_int (20 * S) :: rat) < of_int ((2 * F - 1) * int n)"
      by (simp add: SS_def nn_def)
    then have "20 * S < (2 * F - 1) * int n" by (simp only: of_int_less_iff)
    then have "20 * S + 1 \<le> (2 * F - 1) * int n" by simp
    then have "(of_int (20 * S + 1) :: rat) \<le> of_int ((2 * F - 1) * int n)"
      by (simp only: of_int_le_iff)
    then have i: "20 * SS + 1 \<le> (2 * of_int F - 1) * nn"
      by (simp add: SS_def nn_def)
    have "2 * of_int F - 1 \<le> 20 * d" using Fb(1) by simp
    then have "(2 * of_int F - 1) * nn \<le> 20 * d * nn"
      using nn by (simp add: mult_right_mono)
    with i dn SS show False by (simp add: abs_le_iff)
  qed
  have "\<bar>of_int F / 10 - q\<bar> * nn \<le> 1 / 20 * nn"
  proof -
    have "\<bar>of_int F / 10 - q\<bar> * nn = \<bar>(of_int F / 10 - q) * nn\<bar>"
      using nn by (simp add: abs_mult abs_of_pos)
    also have "(of_int F / 10 - q) * nn = of_int F / 10 * nn - SS"
      using qn by (simp add: left_diff_distrib)
    also have "\<bar>of_int F / 10 * nn - SS\<bar> \<le> 1 / 20 * nn"
    proof (rule abs_leI)
      show "of_int F / 10 * nn - SS \<le> 1 / 20 * nn"
        using lo by (simp add: field_simps)
      show "- (of_int F / 10 * nn - SS) \<le> 1 / 20 * nn"
        using up by (simp add: field_simps)
    qed
    finally show ?thesis .
  qed
  then have "\<bar>of_int F / 10 - q\<bar> \<le> 1 / 20"
    using nn by (simp only: mult_le_cancel_right)
  then have "\<bar>of_int (nearest_tenth d) / 10 - q\<bar> \<le> 1 / 20"
    by (simp only: N)
  then show ?thesis
    unfolding d_def q_def SS_def nn_def .
qed

lemma abs_mean: "\<bar>mean ks\<bar> = of_int \<bar>sum_list ks\<bar> / of_nat (length ks)"
  by (simp add: mean_def)

lemma abs_mean_le: "ks \<noteq> [] \<Longrightarrow> \<bar>mean ks\<bar> \<le> of_int (\<Sum>k\<leftarrow>ks. \<bar>k\<bar>)"
proof -
  assume "ks \<noteq> []"
  then have n: "(1 :: rat) \<le> of_nat (length ks)"
    by (cases ks) simp_all
  have "of_int \<bar>sum_list ks\<bar> / of_nat (length ks) \<le> (of_int \<bar>sum_list ks\<bar> / 1 :: rat)"
    using n by (intro divide_left_mono) auto
  then have "\<bar>mean ks\<bar> \<le> of_int \<bar>sum_list ks\<bar>"
    by (simp add: abs_mean)
  also have "\<dots> \<le> of_int (\<Sum>k\<leftarrow>ks. \<bar>k\<bar>)"
    using abs_sum_list_le [of ks] by (simp only: of_int_le_iff)
  finally show ?thesis .
qed

text \<open>Values of the double model that can be compared with any implementation of the
  language: \<^verbatim>\<open>0.1\<close> is \<open>3602879701896397 / 2\<^sup>5\<^sup>5\<close>; \<^verbatim>\<open>(7 / 20).toFixed(1)\<close> is \<^verbatim>\<open>0.3\<close>
  because the double nearest to 0.35 lies below it, and \<^verbatim>\<open>(47 / 20).toFixed(1)\<close> is
  \<^verbatim>\<open>2.4\<close>; \<^verbatim>\<open>0.25\<close> is a double and a tie, and ties go up; a negative number that rounds
  to zero keeps its sign.\<close>

lemma to_double_examples:
  "to_double (1 / 10) = 3602879701896397 / 36028797018963968"
  "toFixed1 (to_double (7 / 20)) = ''0.3''"
  "toFixed1 (to_double (47 / 20)) = ''2.4''"
  "toFixed1 (to_double (1 / 4)) = ''0.3''"
  "toFixed1 (to_double (- 1 / 25)) = ''-0.0''"
  by code_simp+

lemma parseInt_examples:
  "parseInt ''42'' = Some 42"
  "parseInt '' -7 stars'' = Some (- 7)"
  "parseInt ''3.9'' = Some 3"
  "parseInt ''0x1F'' = Some 31"
  "parseInt ''five'' = None"
  "parseInt [] = None"
  by code_simp+

section \<open>One row per poll and voter\<close>

text \<open>
  C1. Start from any store that satisfies the table's constraint
  \<^verbatim>\<open>UNIQUE(poll_id, voter_id)\<close> (the empty one, for instance) and let any sequence of
  requests and connection events happen. Then the store still holds at most one row for
  each pair of poll and voter. And if it holds a row of voter \<open>v\<close> for poll \<open>p\<close>, an
  accepted submission of \<open>v\<close> for \<open>p\<close> adds no row: it overwrites the value and the
  timestamp of that row and leaves every other row as it was; the store then holds
  exactly one row for the pair, with the new value, and \<^verbatim>\<open>total\<close> of the poll's aggregate
  is what it was before.
\<close>

theorem C1_one_row_per_poll_and_voter:
  assumes "unique_votes (db srv0)"
    and "srv = run parse stringify catalogue srv0 es"
  shows "unique_votes (db srv) \<and>
         (\<forall>env req p v r.
            accepted catalogue env req \<and> req_poll req = Some p \<and> req_voterId req = Some v \<and>
            r \<in> set (votes (db srv)) \<and> poll_id r = p \<and> voter_id r = v \<longrightarrow>
            votes (db (snd (api_vote parse stringify catalogue env req srv))) =
              map (\<lambda>r. if poll_id r = p \<and> voter_id r = v
                        then r\<lparr>val := stored_text stringify (the (req_value req)),
                               created_at := now env\<rparr>
                        else r) (votes (db srv)) \<and>
            filter (\<lambda>r. poll_id r = p \<and> voter_id r = v)
              (votes (db (snd (api_vote parse stringify catalogue env req srv)))) =
              [r\<lparr>val := stored_text stringify (the (req_value req)), created_at := now env\<rparr>] \<and>
            total (aggregateResults parse catalogue
                     (db (snd (api_vote parse stringify catalogue env req srv))) p) =
              total (aggregateResults parse catalogue (db srv) p))"
proof (intro conjI allI impI)
  show u: "unique_votes (db srv)"
    unfolding assms(2) using assms(1) by (rule unique_run)
  fix env req p v r
  assume h: "accepted catalogue env req \<and> req_poll req = Some p \<and> req_voterId req = Some v \<and>
             r \<in> set (votes (db srv)) \<and> poll_id r = p \<and> voter_id r = v"
  let ?x = "stored_text stringify (the (req_value req))"
  let ?srv' = "snd (api_vote parse stringify catalogue env req srv)"
  have d: "db ?srv' = upsertVote (now env) p v ?x (db srv)"
    using api_vote_accepted(1) [of catalogue env req parse stringify srv] h by simp
  have ex: "list_ex (conflicts p v) (votes (db srv))"
    using h by (auto simp: list_ex_iff conflicts_def)
  show vs: "votes (db ?srv') =
      map (\<lambda>r. if poll_id r = p \<and> voter_id r = v then r\<lparr>val := ?x, created_at := now env\<rparr> else r)
        (votes (db srv))"
    unfolding d votes_upsert_existing [OF ex] by (simp add: conflicts_def)
  have one: "filter (\<lambda>r. poll_id r = p \<and> voter_id r = v) (votes (db srv)) = [r]"
  proof -
    have "distinct (map vote_key rs) \<Longrightarrow> r \<in> set rs \<Longrightarrow>
          filter (\<lambda>r. vote_key r = (p, v)) rs = [r]" for rs
      using h by (induction rs) (auto simp: vote_key_def filter_empty_conv image_iff)
    from this [of "votes (db srv)"] u h show ?thesis
      by (simp add: unique_votes_def vote_key_def)
  qed
  have "filter (\<lambda>r. poll_id r = p \<and> voter_id r = v)
          (map (\<lambda>r. if poll_id r = p \<and> voter_id r = v then f r else r) rs) =
        map f (filter (\<lambda>r. poll_id r = p \<and> voter_id r = v) rs)"
    if "\<And>r. poll_id (f r) = poll_id r \<and> voter_id (f r) = voter_id r"
    for rs and f :: "vote \<Rightarrow> vote"
    using that by (induction rs) auto
  from this [of "\<lambda>r. r\<lparr>val := ?x, created_at := now env\<rparr>" "votes (db srv)"]
  show "filter (\<lambda>r. poll_id r = p \<and> voter_id r = v) (votes (db ?srv')) =
           [r\<lparr>val := ?x, created_at := now env\<rparr>]"
    by (simp add: vs one)
  show "total (aggregateResults parse catalogue (db ?srv') p) =
        total (aggregateResults parse catalogue (db srv) p)"
    by (simp add: total_aggregateResults d length_getVotes_upsert_existing [OF ex])
qed

text \<open>A voter answers poll 1 at time 10 and changes the answer at time 50.\<close>

theorem C1_resubmission_witness:
  "unique_votes (db start) \<and>
   votes (db (run parse_labels stringify_plain POLLS start
                [ballot 10 ''1'' ''device-1'' ''Yes, regularly'',
                 ballot 50 ''1'' ''device-1'' ''Yes, a few times''])) =
     [\<lparr>row_id = 1, poll_id = ''1'', voter_id = ''device-1'', val = ''Yes, a few times'',
       created_at = 50\<rparr>] \<and>
   total (aggregateResults parse_labels POLLS
     (db (run parse_labels stringify_plain POLLS start
            [ballot 10 ''1'' ''device-1'' ''Yes, regularly'',
             ballot 50 ''1'' ''device-1'' ''Yes, a few times''])) ''1'') = 1"
proof -
  let ?r = "\<lparr>row_id = 1, poll_id = ''1'', voter_id = ''device-1'', val = ''Yes, regularly'',
             created_at = 10\<rparr>"
  let ?env = "\<lparr>now = 50, storage_error = None\<rparr>"
  let ?req = "\<lparr>req_poll = Some ''1'', req_value = Some (JString ''Yes, a few times''),
              req_voterId = Some ''device-1''\<rparr>"
  let ?srv = "run parse_labels stringify_plain POLLS start
                [ballot 10 ''1'' ''device-1'' ''Yes, regularly'']"
  have u: "unique_votes (db start)"
    by (simp add: start_def unique_votes_def)
  have d: "db ?srv = \<lparr>votes = [?r], seq = 1\<rparr>"
    by (simp add: run_simps db_ballot POLLS_known start_def upsertVote_def next_rowid_def)
  have a: "accepted POLLS ?env ?req"
    by (simp add: accepted_def falsy_string_def falsy_def POLLS_known)
  have s: "run parse_labels stringify_plain POLLS start
             [ballot 10 ''1'' ''device-1'' ''Yes, regularly'',
              ballot 50 ''1'' ''device-1'' ''Yes, a few times''] =
           snd (api_vote parse_labels stringify_plain POLLS ?env ?req ?srv)"
    by (simp add: run_simps step_def ballot_def)
  from C1_one_row_per_poll_and_voter [OF u refl, of parse_labels stringify_plain POLLS
      "[ballot 10 ''1'' ''device-1'' ''Yes, regularly'']"]
  have "votes (db (snd (api_vote parse_labels stringify_plain POLLS ?env ?req ?srv))) =
          map (\<lambda>r. if poll_id r = ''1'' \<and> voter_id r = ''device-1''
                    then r\<lparr>val := stored_text stringify_plain (the (req_value ?req)),
                           created_at := now ?env\<rparr>
                    else r) (votes (db ?srv)) \<and>
        total (aggregateResults parse_labels POLLS
                 (db (snd (api_vote parse_labels stringify_plain POLLS ?env ?req ?srv))) ''1'') =
          total (aggregateResults parse_labels POLLS (db ?srv) ''1'')"
    using a d by auto
  then show ?thesis
    using u
    by (simp add: s [symmetric] d stored_text_def total_aggregateResults POLLS_known
        getVotes_def index_rows_def)
qed

section \<open>Single-choice and rating-scale polls\<close>

text \<open>
  C2, as amended. For every single-choice (\<^verbatim>\<open>mc\<close>) or rating-scale (\<^verbatim>\<open>likert\<close>) poll and
  every list of stored values: \<^verbatim>\<open>total\<close> is the number of stored values, and the results
  list has exactly one entry for every declared option other than \<^verbatim>\<open>__proto__\<close>, whose
  count is the number of stored values equal to the option (zero when there is none),
  and exactly one entry for every other stored value other than \<^verbatim>\<open>__proto__\<close>, whose
  count is the number of stored values equal to it (for the name of a method of
  \<^verbatim>\<open>Object.prototype\<close> a string: the printed method followed by one \<^verbatim>\<open>1\<close> for each of
  them). No entry is ordered by its count: the entries whose labels are array indices
  (decimal numerals of integers below \<open>2\<^sup>3\<^sup>2 - 1\<close>) come first, by ascending number, and
  the others follow in the order of declaration, the undeclared ones after the
  declared ones in the order of their first occurrence. So the declared options stand
  in their declared order exactly when no option is declared twice, none is
  \<^verbatim>\<open>__proto__\<close>, and those that are array indices are declared first and in ascending
  order; with no stored value the results of such a poll are its options, in order,
  each with count zero.
\<close>

theorem C2_every_declared_option_listed:
  assumes "type poll = ''mc'' \<or> type poll = ''likert''"
  shows "aggregate parse poll rows =
           \<lparr>total = length rows,
            results = map (\<lambda>k. Count k (counted (options poll) rows k))
                        (listed (options poll @ rows)),
            writeIns = None,
            average = (if type poll = ''likert'' then Some (likert_average rows) else None)\<rparr> \<and>
         distinct (listed (options poll @ rows)) \<and>
         set (listed (options poll @ rows)) = set (options poll @ rows) - {''__proto__''} \<and>
         (\<forall>opt \<in> set (options poll).
            counted (options poll) rows opt = Num (count_list rows opt)) \<and>
         (\<forall>v. v \<notin> set (options poll) \<and> v \<notin> set Object_prototype_methods \<longrightarrow>
            counted (options poll) rows v = Num (count_list rows v)) \<and>
         (filter (\<lambda>k. k \<in> set (options poll)) (listed (options poll @ rows)) = options poll
            \<longleftrightarrow> keeps_order (options poll)) \<and>
         (keeps_order (options poll) \<longrightarrow>
            results (aggregate parse poll []) = map (\<lambda>opt. Count opt (Num 0)) (options poll))"
proof -
  have a: "aggregate parse poll rs =
      \<lparr>total = length rs,
       results = map (\<lambda>k. Count k (counted (options poll) rs k)) (listed (options poll @ rs)),
       writeIns = None,
       average = (if type poll = ''likert'' then Some (likert_average rs) else None)\<rparr>" for rs
    using assms by (auto simp: aggregate_def simple_count_def entries_exact)
  have o: "filter (\<lambda>k. k \<in> set (options poll)) (listed (options poll @ rows)) = options poll
           \<longleftrightarrow> keeps_order (options poll)"
    by (simp only: declared_of_listed listed_id_iff)
  have e: "results (aggregate parse poll []) = map (\<lambda>opt. Count opt (Num 0)) (options poll)"
    if "keeps_order (options poll)"
  proof -
    have "listed (options poll) = options poll"
      using that by (simp only: listed_id_iff)
    moreover have "map (\<lambda>k. Count k (counted (options poll) [] k)) (options poll) =
                   map (\<lambda>opt. Count opt (Num 0)) (options poll)"
      by (intro map_cong refl) (simp add: counted_def)
    ultimately show ?thesis by (simp add: a)
  qed
  have c: "\<forall>opt \<in> set (options poll). counted (options poll) rows opt = Num (count_list rows opt)"
    and u: "\<forall>v. v \<notin> set (options poll) \<and> v \<notin> set Object_prototype_methods \<longrightarrow>
              counted (options poll) rows v = Num (count_list rows v)"
    by (simp_all add: counted_def)
  from a [of rows] distinct_listed [of "options poll @ rows"]
    set_listed [of "options poll @ rows"] c u o e
  show ?thesis by blast
qed

text \<open>The specification's example, options A and B with no vote. The same poll with the
  stored values B, C, B: the undeclared C gets an entry of its own after the options. A
  rating scale whose options are the numerals 1 to 5, with the stored values 3, 5, 3.\<close>

theorem C2_declared_options_witness:
  "aggregate parse_labels (poll_of ''mc'' [''A'', ''B'']) [] =
     \<lparr>total = 0, results = [Count ''A'' (Num 0), Count ''B'' (Num 0)], writeIns = None,
      average = None\<rparr> \<and>
   total (aggregate parse_labels (poll_of ''mc'' [''A'', ''B'']) [''B'', ''C'', ''B'']) = 3 \<and>
   results (aggregate parse_labels (poll_of ''mc'' [''A'', ''B'']) [''B'', ''C'', ''B'']) =
     [Count ''A'' (Num 0), Count ''B'' (Num 2), Count ''C'' (Num 1)] \<and>
   keeps_order [''1'', ''2'', ''3'', ''4'', ''5''] \<and>
   results (aggregate parse_labels (poll_of ''likert'' [''1'', ''2'', ''3'', ''4'', ''5''])
      [''3'', ''5'', ''3'']) =
     [Count ''1'' (Num 0), Count ''2'' (Num 0), Count ''3'' (Num 2), Count ''4'' (Num 0),
      Count ''5'' (Num 1)]"
proof -
  let ?p = "poll_of ''mc'' [''A'', ''B'']"
  let ?q = "poll_of ''likert'' [''1'', ''2'', ''3'', ''4'', ''5'']"
  have t: "type ?p = ''mc'' \<or> type ?p = ''likert''" "type ?q = ''mc'' \<or> type ?q = ''likert''"
    by (simp_all add: poll_of_def)
  have i: "\<not> is_array_index ''A''" "\<not> is_array_index ''B''" "\<not> is_array_index ''C''"
    "is_array_index ''1''" "is_array_index ''2''" "is_array_index ''3''"
    "is_array_index ''4''" "is_array_index ''5''"
    by (simp_all add: is_array_index_def is_digit_def decimal_value_def digit_value_def)
  have v: "decimal_value ''1'' = 1" "decimal_value ''2'' = 2" "decimal_value ''3'' = 3"
    "decimal_value ''4'' = 4" "decimal_value ''5'' = 5"
    by (simp_all add: decimal_value_def digit_value_def)
  have l: "listed [''A'', ''B''] = [''A'', ''B'']"
    "listed [''A'', ''B'', ''B'', ''C'', ''B''] = [''A'', ''B'', ''C'']"
    "listed [''1'', ''2'', ''3'', ''4'', ''5'', ''3'', ''5'', ''3''] =
       [''1'', ''2'', ''3'', ''4'', ''5'']"
    by (simp_all add: listed_def created_def key_step_def i v)
  have k: "keeps_order [''1'', ''2'', ''3'', ''4'', ''5'']"
    by (simp add: keeps_order_def i v)
  have 1: "aggregate parse_labels ?p [] =
     \<lparr>total = 0, results = [Count ''A'' (Num 0), Count ''B'' (Num 0)], writeIns = None,
      average = None\<rparr>"
    using C2_every_declared_option_listed [OF t(1), of parse_labels "[]"]
    by (simp add: poll_of_def l counted_def)
  have 2: "total (aggregate parse_labels ?p [''B'', ''C'', ''B'']) = 3 \<and>
     results (aggregate parse_labels ?p [''B'', ''C'', ''B'']) =
       [Count ''A'' (Num 0), Count ''B'' (Num 2), Count ''C'' (Num 1)]"
    using C2_every_declared_option_listed [OF t(1), of parse_labels "[''B'', ''C'', ''B'']"]
    by (simp add: poll_of_def l counted_def Object_prototype_methods_def)
  have 3: "results (aggregate parse_labels ?q [''3'', ''5'', ''3'']) =
     [Count ''1'' (Num 0), Count ''2'' (Num 0), Count ''3'' (Num 2), Count ''4'' (Num 0),
      Count ''5'' (Num 1)]"
    using C2_every_declared_option_listed [OF t(2), of parse_labels "[''3'', ''5'', ''3'']"]
    by (simp add: poll_of_def l counted_def)
  from 1 2 3 k show ?thesis by simp
qed

text \<open>The claim as the specification states it, for every poll, fails in two ways.
  Declared options \<^verbatim>\<open>["2", "1"]\<close> are array indices, and the results list them in
  numeric order, not in declared order. A declared option \<^verbatim>\<open>__proto__\<close> gets no entry:
  the assignment \<^verbatim>\<open>counts['__proto__'] = 0\<close> creates no property.\<close>

theorem C2_declared_order_counterexample:
  "options (poll_of ''mc'' [''2'', ''1'']) = [''2'', ''1''] \<and>
   results (aggregate parse_labels (poll_of ''mc'' [''2'', ''1'']) []) =
     [Count ''1'' (Num 0), Count ''2'' (Num 0)] \<and>
   options (poll_of ''mc'' [''A'', ''__proto__'']) = [''A'', ''__proto__''] \<and>
   results (aggregate parse_labels (poll_of ''mc'' [''A'', ''__proto__'']) []) =
     [Count ''A'' (Num 0)]"
  by (simp add: poll_of_def aggregate_def simple_count_def zero_counts_def set_prop_def
      entries_of_def Object_entries_def is_array_index_def is_digit_def decimal_value_def
      digit_value_def)

section \<open>Multi-select polls\<close>

text \<open>
  C3, as amended. For every multi-select poll of the catalogue and every state of the
  store: \<^verbatim>\<open>total\<close> is the number of rows stored for the poll, which is the number of
  distinct voters with a stored vote, however many labels a voter selected. A stored
  value that parses as a JSON array selects the property keys of the array's elements
  (an element that is a string selects itself), one after the other, up to the first
  element whose conversion to a property key throws; a stored value that does not parse
  as a JSON array selects nothing and is skipped silently. The results list has
  exactly one entry for every declared option other than \<^verbatim>\<open>__proto__\<close>, and its count
  is the number of selections equal to the option over all stored values, zero when
  there is none; a voter whose array selects the option twice is counted twice, and
  where no stored value selects a label twice the count is the number of voters whose
  selection contains the option. A selected label that is not declared and is not
  \<^verbatim>\<open>__proto__\<close> has an entry of its own.
\<close>

theorem C3_multi_select_counts_selections:
  assumes "get_prop catalogue p = Own poll" and "type poll = ''multi''"
  shows "aggregateResults parse catalogue d p = aggregate parse poll (getVotes d p) \<and>
         length (getVotes d p) = length (filter (\<lambda>r. poll_id r = p) (votes d)) \<and>
         (unique_votes d \<longrightarrow>
            length (getVotes d p) = card (voter_id ` {r \<in> set (votes d). poll_id r = p})) \<and>
         aggregate parse poll rows =
           \<lparr>total = length rows,
            results =
              map (\<lambda>k. Count k (counted (options poll) (concat (map (selections parse) rows)) k))
                (listed (options poll @ concat (map (selections parse) rows))),
            writeIns = None, average = None\<rparr> \<and>
         distinct (listed (options poll @ concat (map (selections parse) rows))) \<and>
         set (listed (options poll @ concat (map (selections parse) rows))) =
           set (options poll @ concat (map (selections parse) rows)) - {''__proto__''} \<and>
         (\<forall>opt \<in> set (options poll).
            counted (options poll) (concat (map (selections parse) rows)) opt =
              Num (\<Sum>v\<leftarrow>rows. count_list (selections parse v) opt)) \<and>
         ((\<forall>v \<in> set rows. distinct (selections parse v)) \<longrightarrow>
            (\<forall>k. (\<Sum>v\<leftarrow>rows. count_list (selections parse v) k) =
                    length (filter (\<lambda>v. k \<in> set (selections parse v)) rows))) \<and>
         (\<forall>v. (\<forall>xs. parse v \<noteq> Some (JArray xs)) \<longrightarrow> selections parse v = []) \<and>
         (\<forall>v ls. parse v = Some (JArray (map JString ls)) \<longrightarrow> selections parse v = ls)"
proof -
  let ?ks = "concat (map (selections parse) rows)"
  have 1: "aggregateResults parse catalogue d p = aggregate parse poll (getVotes d p)"
    using assms(1) by (rule aggregateResults_Own)
  have 2: "length (getVotes d p) = length (filter (\<lambda>r. poll_id r = p) (votes d))"
    by (rule length_getVotes)
  have 3: "unique_votes d \<longrightarrow>
      length (getVotes d p) = card (voter_id ` {r \<in> set (votes d). poll_id r = p})"
    by (simp add: length_getVotes rows_are_voters)
  have 4: "aggregate parse poll rows =
      \<lparr>total = length rows,
       results = map (\<lambda>k. Count k (counted (options poll) ?ks k)) (listed (options poll @ ?ks)),
       writeIns = None, average = None\<rparr>"
    using assms(2) by (simp add: aggregate_def multi_entries_exact)
  have 5: "\<forall>opt \<in> set (options poll).
      counted (options poll) ?ks opt = Num (\<Sum>v\<leftarrow>rows. count_list (selections parse v) opt)"
    by (simp add: counted_def count_list_concat comp_def)
  have 6: "(\<forall>v \<in> set rows. distinct (selections parse v)) \<longrightarrow>
      (\<forall>k. (\<Sum>v\<leftarrow>rows. count_list (selections parse v) k) =
              length (filter (\<lambda>v. k \<in> set (selections parse v)) rows))"
  proof (intro impI allI)
    fix k
    assume "\<forall>v \<in> set rows. distinct (selections parse v)"
    then have m: "map (\<lambda>v. count_list (selections parse v) k) rows =
          map (\<lambda>v. if k \<in> set (selections parse v) then 1 else 0) rows"
      by (simp add: count_list_distinct)
    show "(\<Sum>v\<leftarrow>rows. count_list (selections parse v) k) =
          length (filter (\<lambda>v. k \<in> set (selections parse v)) rows)"
      unfolding m by (rule sum_list_indicator)
  qed
  have 7: "\<forall>v. (\<forall>xs. parse v \<noteq> Some (JArray xs)) \<longrightarrow> selections parse v = []"
    by (simp add: selections_def split: option.split json.split)
  have 8: "\<forall>v ls. parse v = Some (JArray (map JString ls)) \<longrightarrow> selections parse v = ls"
    by (simp add: selections_def selected_keys_strings)
  from 1 2 3 4 distinct_listed [of "options poll @ ?ks"] set_listed [of "options poll @ ?ks"]
    5 6 7 8
  show ?thesis by blast
qed

text \<open>The specification's example: voter a has stored \<^verbatim>\<open>["X","Y"]\<close> and voter b
  \<^verbatim>\<open>["Y"]\<close>; X is counted once and Y twice, and the total is two. When a third voter has
  stored a text that is no JSON array, the counts are the same and the total is
  three.\<close>

theorem C3_multi_select_witness:
  "aggregateResults parse_labels [(''9'', poll_of ''multi'' [''X'', ''Y''])]
     \<lparr>votes = [\<lparr>row_id = 1, poll_id = ''9'', voter_id = ''a'', val = ''[\"X\",\"Y\"]'',
                 created_at = 10\<rparr>,
               \<lparr>row_id = 2, poll_id = ''9'', voter_id = ''b'', val = ''[\"Y\"]'',
                 created_at = 20\<rparr>],
      seq = 2\<rparr> ''9'' =
   \<lparr>total = 2, results = [Count ''X'' (Num 1), Count ''Y'' (Num 2)], writeIns = None,
    average = None\<rparr> \<and>
   aggregateResults parse_labels [(''9'', poll_of ''multi'' [''X'', ''Y''])]
     \<lparr>votes = [\<lparr>row_id = 1, poll_id = ''9'', voter_id = ''a'', val = ''[\"X\",\"Y\"]'',
                 created_at = 10\<rparr>,
               \<lparr>row_id = 2, poll_id = ''9'', voter_id = ''c'', val = ''Y, I think'',
                 created_at = 20\<rparr>,
               \<lparr>row_id = 3, poll_id = ''9'', voter_id = ''b'', val = ''[\"Y\"]'',
                 created_at = 30\<rparr>],
      seq = 3\<rparr> ''9'' =
   \<lparr>total = 3, results = [Count ''X'' (Num 1), Count ''Y'' (Num 2)], writeIns = None,
    average = None\<rparr>"
proof -
  let ?p = "poll_of ''multi'' [''X'', ''Y'']"
  let ?d = "\<lparr>votes = [\<lparr>row_id = 1, poll_id = ''9'', voter_id = ''a'', val = ''[\"X\",\"Y\"]'',
                        created_at = 10\<rparr>,
                      \<lparr>row_id = 2, poll_id = ''9'', voter_id = ''b'', val = ''[\"Y\"]'',
                        created_at = 20\<rparr>],
             seq = 2\<rparr>"
  let ?e = "\<lparr>votes = [\<lparr>row_id = 1, poll_id = ''9'', voter_id = ''a'', val = ''[\"X\",\"Y\"]'',
                        created_at = 10\<rparr>,
                      \<lparr>row_id = 2, poll_id = ''9'', voter_id = ''c'', val = ''Y, I think'',
                        created_at = 20\<rparr>,
                      \<lparr>row_id = 3, poll_id = ''9'', voter_id = ''b'', val = ''[\"Y\"]'',
                        created_at = 30\<rparr>],
             seq = 3\<rparr>"
  let ?two = "[''[\"X\",\"Y\"]'', ''[\"Y\"]'']"
  let ?three = "[''[\"X\",\"Y\"]'', ''[\"Y\"]'', ''Y, I think'']"
  have g: "get_prop [(''9'', ?p)] ''9'' = Own ?p" by (simp add: get_prop_def)
  have t: "type ?p = ''multi''" by (simp add: poll_of_def)
  have r: "getVotes ?d ''9'' = ?two" "getVotes ?e ''9'' = ?three"
    by (simp_all add: getVotes_def index_rows_def)
  have s: "selections parse_labels ''[\"X\",\"Y\"]'' = [''X'', ''Y'']"
    "selections parse_labels ''[\"Y\"]'' = [''Y'']"
    "selections parse_labels ''Y, I think'' = []"
    by (simp_all add: selections_def parse_labels_def)
  have i: "\<not> is_array_index ''X''" "\<not> is_array_index ''Y''"
    by (simp_all add: is_array_index_def is_digit_def)
  have l: "listed [''X'', ''Y'', ''X'', ''Y'', ''Y''] = [''X'', ''Y'']"
    by (simp add: listed_def created_def key_step_def i)
  from C3_multi_select_counts_selections [OF g t, of parse_labels ?d ?two]
  have "aggregateResults parse_labels [(''9'', ?p)] ?d ''9'' = aggregate parse_labels ?p ?two"
    and "aggregate parse_labels ?p ?two =
      \<lparr>total = length ?two,
       results = map (\<lambda>k. Count k (counted (options ?p)
                     (concat (map (selections parse_labels) ?two)) k))
                   (listed (options ?p @ concat (map (selections parse_labels) ?two))),
       writeIns = None, average = None\<rparr>"
    by (simp_all only: r)
  then have 1: "aggregateResults parse_labels [(''9'', ?p)] ?d ''9'' =
     \<lparr>total = 2, results = [Count ''X'' (Num 1), Count ''Y'' (Num 2)], writeIns = None,
      average = None\<rparr>"
    by (simp add: s poll_of_def l counted_def)
  from C3_multi_select_counts_selections [OF g t, of parse_labels ?e ?three]
  have "aggregateResults parse_labels [(''9'', ?p)] ?e ''9'' = aggregate parse_labels ?p ?three"
    and "aggregate parse_labels ?p ?three =
      \<lparr>total = length ?three,
       results = map (\<lambda>k. Count k (counted (options ?p)
                     (concat (map (selections parse_labels) ?three)) k))
                   (listed (options ?p @ concat (map (selections parse_labels) ?three))),
       writeIns = None, average = None\<rparr>"
    by (simp_all only: r)
  then have 2: "aggregateResults parse_labels [(''9'', ?p)] ?e ''9'' =
     \<lparr>total = 3, results = [Count ''X'' (Num 1), Count ''Y'' (Num 2)], writeIns = None,
      average = None\<rparr>"
    by (simp add: s poll_of_def l counted_def)
  from 1 2 show ?thesis by simp
qed

text \<open>The claim as the specification states it fails in two ways. The count of an option
  is not the number of voters whose selection contains it when an array names the
  option twice: one voter, and Y is counted twice. And a declared option \<^verbatim>\<open>__proto__\<close>
  has no count at all.\<close>

theorem C3_voters_counterexample:
  "results (aggregate parse_labels (poll_of ''multi'' [''X'', ''Y'']) [''[\"Y\",\"Y\"]'']) =
     [Count ''X'' (Num 0), Count ''Y'' (Num 2)] \<and>
   length (filter (\<lambda>v. ''Y'' \<in> set (selections parse_labels v)) [''[\"Y\",\"Y\"]'']) = 1 \<and>
   results (aggregate parse_labels (poll_of ''multi'' [''X'', ''__proto__''])
     [''[\"__proto__\"]'']) = [Count ''X'' (Num 0)]"
  by (simp add: poll_of_def aggregate_def tally_row_def parse_labels_def zero_counts_def
      set_prop_def bump_def get_prop_def or0_plus1_def entries_of_def Object_entries_def
      is_array_index_def is_digit_def selections_def)

section \<open>The average of a rating-scale poll\<close>

text \<open>
  C4, as amended. Take a rating-scale poll and the stored values that \<^verbatim>\<open>parseInt\<close> reads
  as an integer (an optional sign and a prefix of digits, after white space; whatever
  follows the digits is ignored), and let the absolute values of these integers add up to
  less than \<open>2\<^sup>5\<^sup>3 / 20\<close>. Then \<^verbatim>\<open>average\<close> is \<^verbatim>\<open>0.0\<close> when no stored value parses, and
  otherwise \<^verbatim>\<open>toFixed(1)\<close> of the double nearest to the arithmetic mean of the parsed
  integers: the values that do not parse count neither in the sum nor in the number the
  sum is divided by. The digits printed are those of a multiple of one tenth that is
  nearest to the magnitude of the mean (either neighbour when the mean lies exactly
  between two tenths), and the minus sign is printed exactly when the mean is negative.
\<close>

theorem C4_average_is_rounded_mean:
  assumes "type poll = ''likert''"
    and "20 * (\<Sum>k\<leftarrow>parsed_values rows. \<bar>k\<bar>) < 2 ^ 53"
  shows "average (aggregate parse poll rows) =
           Some (if parsed_values rows = [] then Fixed ''0.0''
                 else Fixed (toFixed1 (to_double (mean (parsed_values rows))))) \<and>
         (parsed_values rows \<noteq> [] \<longrightarrow>
            \<bar>of_int (nearest_tenth \<bar>to_double (mean (parsed_values rows))\<bar>) / 10 -
              \<bar>mean (parsed_values rows)\<bar>\<bar> \<le> 1 / 20 \<and>
            (to_double (mean (parsed_values rows)) < 0 \<longleftrightarrow> mean (parsed_values rows) < 0))"
proof -
  let ?ks = "parsed_values rows"
  let ?B = "\<Sum>k\<leftarrow>?ks. \<bar>k\<bar>"
  have B0: "0 \<le> ?B" by (rule sum_list_nonneg) auto
  have B: "?B \<le> 2 ^ 53" using assms(2) B0 by linarith
  have loop: "mean_loop (0, 0) rows = (of_int (sum_list ?ks), length ?ks)"
    using mean_loop_exact [of 0 rows 0] B by simp
  have nb: "\<not> list_ex beyond_20_digits rows"
    using B by (rule not_beyond_20_digits)
  have small: "\<not> 10 ^ 21 \<le> \<bar>to_double (mean ?ks)\<bar>" if ne: "?ks \<noteq> []"
  proof -
    define m where "m = \<bar>mean ?ks\<bar>"
    define td where "td = to_double m"
    have m0: "0 \<le> m" by (simp add: m_def)
    have "m \<le> of_int ?B" unfolding m_def using ne by (rule abs_mean_le)
    moreover have "of_int ?B \<le> (of_int (2 ^ 53) :: rat)"
      using B by (simp only: of_int_le_iff)
    ultimately have m53: "m \<le> 9007199254740992" by simp
    have "\<bar>td - m\<bar> \<le> \<bar>m\<bar> / 2 ^ 53" unfolding td_def by (rule to_double_error)
    then have "td - m \<le> \<bar>m\<bar> / 2 ^ 53" by (rule abs_le_D1)
    then have "td - m \<le> m / 9007199254740992" using m0 by simp
    with m53 have "td \<le> 9007199254740993" by linarith
    then have "\<not> 10 ^ 21 \<le> td" by simp
    then show ?thesis by (simp add: to_double_abs td_def m_def)
  qed
  have avg: "average (aggregate parse poll rows) =
           Some (if ?ks = [] then Fixed ''0.0'' else Fixed (toFixed1 (to_double (mean ?ks))))"
  proof (cases "?ks = []")
    case True
    then show ?thesis
      using assms(1) nb by (simp add: aggregate_def likert_average_def loop)
  next
    case False
    then show ?thesis
      using assms(1) nb small [OF False]
      by (simp add: aggregate_def likert_average_def loop Let_def mean_def)
  qed
  have tenth: "\<bar>of_int (nearest_tenth \<bar>to_double (mean ?ks)\<bar>) / 10 - \<bar>mean ?ks\<bar>\<bar> \<le> 1 / 20"
    if ne: "?ks \<noteq> []"
  proof -
    have s: "20 * \<bar>sum_list ?ks\<bar> < 2 ^ 53"
      using abs_sum_list_le [of ?ks] assms(2) by linarith
    have n: "0 < length ?ks" using ne by simp
    from nearest_tenth_of_double [OF _ s n]
    show ?thesis by (simp add: to_double_abs abs_mean)
  qed
  from avg tenth show ?thesis by (simp add: to_double_sign)
qed

text \<open>The specification's example, with a stored value that is no number among the
  three ratings.\<close>

theorem C4_average_witness:
  "parsed_values [''1'', ''n/a'', ''3'', ''5''] = [1, 3, 5] \<and>
   average (aggregate parse_labels (poll_of ''likert'' []) [''1'', ''n/a'', ''3'', ''5'']) =
     Some (Fixed ''3.0'') \<and>
   average (aggregate parse_labels (poll_of ''likert'' []) [''n/a'']) = Some (Fixed ''0.0'')"
proof -
  let ?p = "poll_of ''likert'' []"
  have t: "type ?p = ''likert''" by (simp add: poll_of_def)
  have p: "parsed_values [''1'', ''n/a'', ''3'', ''5''] = [1, 3, 5]"
    "parsed_values [''n/a''] = []"
    by code_simp+
  have b: "20 * (\<Sum>k\<leftarrow>parsed_values [''1'', ''n/a'', ''3'', ''5'']. \<bar>k\<bar>) < 2 ^ 53"
    "20 * (\<Sum>k\<leftarrow>parsed_values [''n/a'']. \<bar>k\<bar>) < 2 ^ 53"
    by (simp_all add: p)
  have f: "toFixed1 (to_double (mean [1, 3, 5])) = ''3.0''"
    by code_simp
  from C4_average_is_rounded_mean [OF t b(1), of parse_labels]
    C4_average_is_rounded_mean [OF t b(2), of parse_labels]
  show ?thesis by (simp add: p f)
qed

text \<open>The claim as the specification states it, for every stored value, fails beyond
  the precision of a double: the mean of the single rating 9007199254740993 is that
  number, and the average reported is 9007199254740992.0.\<close>

theorem C4_mean_counterexample:
  "parsed_values [''9007199254740993''] = [9007199254740993] \<and>
   mean [9007199254740993] = 9007199254740993 \<and>
   average (aggregate parse_labels (poll_of ''likert'' []) [''9007199254740993'']) =
     Some (Fixed ''9007199254740992.0'')"
proof -
  have 1: "parseInt ''9007199254740993'' = Some 9007199254740993"
    by code_simp
  have 2: "likert_average [''9007199254740993''] = Fixed ''9007199254740992.0''"
    by code_simp
  show ?thesis
    by (simp add: parsed_values_def map_filter_simps 1 mean_def aggregate_def poll_of_def 2)
qed

section \<open>Single-choice polls with write-in\<close>




section \<open>Free-text polls\<close>




section \<open>Submissions for an unknown poll\<close>

text \<open>
  C7. The claim: a submission whose poll identifier does not resolve to a known poll is
  rejected with status 400, the store is left unchanged and nothing is broadcast. The
  route tests \<^verbatim>\<open>!POLLS[poll]\<close>, and \<^verbatim>\<open>POLLS\<close> is a plain object: for the name of a member of
  \<^verbatim>\<open>Object.prototype\<close> the read yields that member, which is truthy. The catalogue has no
  poll \<^verbatim>\<open>constructor\<close>, yet the submission below is answered with status 200, a row is
  stored for it and an aggregate is broadcast.
\<close>

theorem C7_prototype_member_taken_for_a_poll:
  "''constructor'' \<notin> set (Object_keys POLLS) \<and>
   api_vote parse_labels stringify_plain POLLS \<lparr>now = 7, storage_error = None\<rparr>
     \<lparr>req_poll = Some ''constructor'', req_value = Some (JString ''x''), req_voterId = Some ''v''\<rparr>
     start =
   (\<lparr>status = 200, body = Ok\<rparr>,
    \<lparr>db = \<lparr>votes = [\<lparr>row_id = 1, poll_id = ''constructor'', voter_id = ''v'', val = ''x'',
                      created_at = 7\<rparr>], seq = 1\<rparr>,
     clients = [],
     published = [Vote_update ''vote'' ''constructor''
                    \<lparr>total = 1, results = [Count ''x'' (Num 1)], writeIns = None, average = None\<rparr>],
     upsert_calls = 1\<rparr>)"
  by (simp add: Object_keys_POLLS)
    (simp add: api_vote_def falsy_string_def falsy_def no_poll_def get_prop_def POLLS_def
      Object_prototype_methods_def start_def upsertVote_run_def upsertVote_def next_rowid_def Let_def
      aggregateResults_def getVotes_def index_rows_def simple_count_def zero_counts_def bump_def set_prop_def
      or0_plus1_def entries_of_def Object_entries_def is_array_index_def is_digit_def
      broadcast_def conflicts_def stored_text_def)

section \<open>Storage failure\<close>

text \<open>
  C8. When a submission passes both checks and \<^verbatim>\<open>upsertVote.run\<close> throws, the caller gets
  status 500 with the message of the error; the write was tried once and not again; the
  store, the subscribers and the list of broadcast messages are what they were.
\<close>

theorem C8_storage_failure_is_surfaced:
  assumes "\<not> falsy_string (req_poll req)" and "\<not> falsy (req_value req)"
    and "\<not> falsy_string (req_voterId req)" and "\<not> no_poll catalogue (the (req_poll req))"
    and "storage_error env = Some err"
  shows "fst (api_vote parse stringify catalogue env req srv) =
           \<lparr>status = 500, body = Error err\<rparr> \<and>
         db (snd (api_vote parse stringify catalogue env req srv)) = db srv \<and>
         published (snd (api_vote parse stringify catalogue env req srv)) = published srv \<and>
         clients (snd (api_vote parse stringify catalogue env req srv)) = clients srv \<and>
         upsert_calls (snd (api_vote parse stringify catalogue env req srv)) =
           Suc (upsert_calls srv)"
  using assms by (simp add: api_vote_def Let_def upsertVote_run_def)

theorem C8_storage_failure_witness:
  "fst (api_vote parse_labels stringify_plain POLLS
          \<lparr>now = 7, storage_error = Some ''disk I/O error''\<rparr>
          \<lparr>req_poll = Some ''1'', req_value = Some (JString ''Yes, a few times''),
           req_voterId = Some ''device-1''\<rparr> start) =
     \<lparr>status = 500, body = Error ''disk I/O error''\<rparr> \<and>
   published (snd (api_vote parse_labels stringify_plain POLLS
          \<lparr>now = 7, storage_error = Some ''disk I/O error''\<rparr>
          \<lparr>req_poll = Some ''1'', req_value = Some (JString ''Yes, a few times''),
           req_voterId = Some ''device-1''\<rparr> start)) = [] \<and>
   votes (db (snd (api_vote parse_labels stringify_plain POLLS
          \<lparr>now = 7, storage_error = Some ''disk I/O error''\<rparr>
          \<lparr>req_poll = Some ''1'', req_value = Some (JString ''Yes, a few times''),
           req_voterId = Some ''device-1''\<rparr> start))) = [] \<and>
   upsert_calls (snd (api_vote parse_labels stringify_plain POLLS
          \<lparr>now = 7, storage_error = Some ''disk I/O error''\<rparr>
          \<lparr>req_poll = Some ''1'', req_value = Some (JString ''Yes, a few times''),
           req_voterId = Some ''device-1''\<rparr> start)) = 1"
  using C8_storage_failure_is_surfaced
    [of "\<lparr>req_poll = Some ''1'', req_value = Some (JString ''Yes, a few times''),
          req_voterId = Some ''device-1''\<rparr>" POLLS
        "\<lparr>now = 7, storage_error = Some ''disk I/O error''\<rparr>"
        "''disk I/O error''" parse_labels stringify_plain start]
  by (simp add: falsy_string_def falsy_def POLLS_known start_def)

section \<open>The administrative reset\<close>

text \<open>
  C9, as amended. For every state of the server, the reset answers with status 200,
  leaves the store without any row, and broadcasts one message for each of the six polls
  of the catalogue, in the order of their identifiers; each message carries the poll's
  aggregate with \<^verbatim>\<open>total\<close> zero and every declared option at count zero. The messages
  have the type \<^verbatim>\<open>vote\<close>, the same as the update after a submission: the program has no
  message of a type \<^verbatim>\<open>reset\<close>.
\<close>

theorem C9_reset_publishes_once_per_poll:
  "fst (api_reset parse POLLS srv) = \<lparr>status = 200, body = Ok_message ''All votes cleared''\<rparr> \<and>
   votes (db (snd (api_reset parse POLLS srv))) = [] \<and>
   published (snd (api_reset parse POLLS srv)) = published srv @ map emptied POLLS \<and>
   map msg_poll (map emptied POLLS) = [''1'', ''2'', ''3'', ''4'', ''5'', ''6'']"
proof -
  have g: "getVotes (db (srv\<lparr>db := clearAll (db srv)\<rparr>)) = (\<lambda>p. [])"
    by (simp add: fun_eq_iff)
  have "published (snd (api_reset parse POLLS srv)) =
        published srv @ map (\<lambda>pid. Vote_update ''vote'' pid
          (aggregateResults parse POLLS (clearAll (db srv)) pid)) (Object_keys POLLS)"
    using reset_loop [OF g, of parse POLLS "Object_keys POLLS"]
    by (simp add: api_reset_def Let_def)
  also have "\<dots> = published srv @ map emptied POLLS"
    using aggregateResults_POLLS_empty [of "clearAll (db srv)" parse]
    by (simp add: Object_keys_POLLS fun_eq_iff)
  finally have p: "published (snd (api_reset parse POLLS srv)) = published srv @ map emptied POLLS" .
  have m: "map msg_poll (map emptied POLLS) = [''1'', ''2'', ''3'', ''4'', ''5'', ''6'']"
    by (simp add: POLLS_def emptied_def)
  show ?thesis
    using p m by (simp add: db_api_reset) (simp add: api_reset_def Let_def)
qed

text \<open>After one vote for poll 6, the reset broadcasts six messages; the last one shows
  poll 6 emptied.\<close>

theorem C9_reset_witness:
  "length (published (snd (api_reset parse_labels POLLS
      (run parse_labels stringify_plain POLLS start [ballot 10 ''6'' ''A'' ''Yes, a few''])))) = 7 \<and>
   last (published (snd (api_reset parse_labels POLLS
      (run parse_labels stringify_plain POLLS start [ballot 10 ''6'' ''A'' ''Yes, a few''])))) =
     Vote_update ''vote'' ''6''
       \<lparr>total = 0,
        results = [Count ''Yes, several clients'' (Num 0), Count ''Yes, a few'' (Num 0),
                   Count ''Not that I know of'' (Num 0), Count ''I'm not sure'' (Num 0)],
        writeIns = None, average = None\<rparr>"
proof -
  let ?srv = "run parse_labels stringify_plain POLLS start [ballot 10 ''6'' ''A'' ''Yes, a few'']"
  have l: "length (published ?srv) = 1"
    by (simp add: run_simps step_def ballot_def api_vote_def falsy_string_def falsy_def
        POLLS_known upsertVote_run_def Let_def start_def)
  have e: "last (map emptied POLLS) =
     Vote_update ''vote'' ''6''
       \<lparr>total = 0,
        results = [Count ''Yes, several clients'' (Num 0), Count ''Yes, a few'' (Num 0),
                   Count ''Not that I know of'' (Num 0), Count ''I'm not sure'' (Num 0)],
        writeIns = None, average = None\<rparr>"
    by (simp add: POLLS_def emptied_def)
  have n: "map emptied POLLS \<noteq> []" "length (map emptied POLLS) = 6"
    by (simp_all add: POLLS_def)
  from C9_reset_publishes_once_per_poll [of parse_labels ?srv]
  have p: "published (snd (api_reset parse_labels POLLS ?srv)) = published ?srv @ map emptied POLLS"
    by blast
  show ?thesis
    unfolding p using l n e by (simp del: map_map)
qed

text \<open>The claim as the specification states it asks for events of a type \<^verbatim>\<open>reset\<close>; the
  six messages of a reset have the type \<^verbatim>\<open>vote\<close>.\<close>

theorem C9_reset_type_counterexample:
  "map msg_type (published (snd (api_reset parse_labels POLLS start))) =
     [''vote'', ''vote'', ''vote'', ''vote'', ''vote'', ''vote''] \<and>
   ''reset'' \<notin> set (map msg_type (published (snd (api_reset parse_labels POLLS start))))"
proof -
  have g: "getVotes (db (start\<lparr>db := clearAll (db start)\<rparr>)) = (\<lambda>p. [])"
    by (simp add: fun_eq_iff)
  have "map msg_type (published (snd (api_reset parse_labels POLLS start))) =
        map (\<lambda>pid. ''vote'') (Object_keys POLLS)"
    using reset_loop [OF g, of parse_labels POLLS "Object_keys POLLS"]
    by (simp add: api_reset_def Let_def start_def comp_def)
  then show ?thesis by (simp add: Object_keys_POLLS)
qed

section \<open>Broadcast\<close>

text \<open>
  C10. \<^verbatim>\<open>broadcast\<close> goes through all registered sockets, in order, and for each of them
  the outcome depends on that socket alone: where \<^verbatim>\<open>ws.send\<close> throws, the error is caught
  and the socket is left as it was; where it does not, the message is appended to what
  the peer has received. So a socket that fails keeps no other socket from receiving the
  message. \<^verbatim>\<open>broadcast\<close> itself has no failing outcome: it records the message and
  leaves the store alone.
\<close>

theorem C10_broadcast_reaches_every_subscriber:
  "length (clients (broadcast msg srv)) = length (clients srv) \<and>
   (\<forall>i < length (clients srv).
      clients (broadcast msg srv) ! i =
        (case ws_send (clients srv ! i) msg of
           Inl err \<Rightarrow> clients srv ! i
         | Inr ws' \<Rightarrow> ws') \<and>
      (alive (clients srv ! i) \<longrightarrow>
         inbox (clients (broadcast msg srv) ! i) = inbox (clients srv ! i) @ [msg])) \<and>
   published (broadcast msg srv) = published srv @ [msg] \<and>
   db (broadcast msg srv) = db srv"
proof -
  let ?attempt = "\<lambda>ws. case ws_send ws msg of Inl err \<Rightarrow> ws | Inr ws' \<Rightarrow> ws'"
  have c: "clients (broadcast msg srv) = map ?attempt (clients srv)"
    by (simp add: clients_broadcast send_all_map)
  have n: "length (clients (broadcast msg srv)) = length (clients srv)"
    by (simp add: c)
  have each: "clients (broadcast msg srv) ! i = ?attempt (clients srv ! i)"
    if "i < length (clients srv)" for i
    using that by (simp add: c)
  have delivered: "inbox (clients (broadcast msg srv) ! i) = inbox (clients srv ! i) @ [msg]"
    if "i < length (clients srv)" "alive (clients srv ! i)" for i
    using that by (simp add: each ws_send_def)
  from n each delivered show ?thesis by simp
qed

text \<open>A socket whose peer is gone, registered before a healthy one: the healthy one
  receives the message.\<close>

theorem C10_broadcast_isolation_witness:
  "ws_send \<lparr>sid = 1, alive = False, inbox = []\<rparr> (Tunnel ''tunnel'' ''https://example.test'') =
     Inl ''WebSocket is not open'' \<and>
   clients (broadcast (Tunnel ''tunnel'' ''https://example.test'')
      (start\<lparr>clients := [\<lparr>sid = 1, alive = False, inbox = []\<rparr>,
                          \<lparr>sid = 2, alive = True, inbox = []\<rparr>]\<rparr>)) =
     [\<lparr>sid = 1, alive = False, inbox = []\<rparr>,
      \<lparr>sid = 2, alive = True, inbox = [Tunnel ''tunnel'' ''https://example.test'']\<rparr>]"
proof -
  let ?m = "Tunnel ''tunnel'' ''https://example.test''"
  let ?srv = "start\<lparr>clients := [\<lparr>sid = 1, alive = False, inbox = []\<rparr>,
                                \<lparr>sid = 2, alive = True, inbox = []\<rparr>]\<rparr>"
  from C10_broadcast_reaches_every_subscriber [of ?m ?srv]
  have "length (clients (broadcast ?m ?srv)) = 2"
    and "clients (broadcast ?m ?srv) ! 0 = \<lparr>sid = 1, alive = False, inbox = []\<rparr>"
    and "clients (broadcast ?m ?srv) ! 1 = \<lparr>sid = 2, alive = True, inbox = [?m]\<rparr>"
    by (simp_all add: ws_send_def)
  then have "clients (broadcast ?m ?srv) =
      [\<lparr>sid = 1, alive = False, inbox = []\<rparr>, \<lparr>sid = 2, alive = True, inbox = [?m]\<rparr>]"
    by (simp add: list_eq_iff_nth_eq less_Suc_eq numeral_2_eq_2)
  then show ?thesis by (simp add: ws_send_def)
qed

section \<open>Rejected submissions\<close>

text \<open>
  A submission with a missing or empty poll identifier, value or voter identifier, or
  with a poll identifier that is neither a key of the catalogue nor the name of a member
  of \<^verbatim>\<open>Object.prototype\<close>, is answered with status 400; the store, the subscribers and
  the list of broadcast messages stay as they are, and no write is attempted.
\<close>

theorem rejected_submission_changes_nothing:
  assumes "falsy_string (req_poll req) \<or> falsy (req_value req) \<or> falsy_string (req_voterId req) \<or>
           (the (req_poll req) \<notin> set (map fst catalogue) \<and>
            the (req_poll req) \<noteq> ''__proto__'' \<and>
            the (req_poll req) \<notin> set Object_prototype_methods)"
  shows "status (fst (api_vote parse stringify catalogue env req srv)) = 400 \<and>
         snd (api_vote parse stringify catalogue env req srv) = srv"
proof -
  have "no_poll catalogue p"
    if "p \<notin> set (map fst catalogue)" "p \<noteq> ''__proto__''" "p \<notin> set Object_prototype_methods"
    for p
  proof -
    have "map_of catalogue p = None" using that(1) by (simp add: map_of_eq_None_iff)
    then show ?thesis using that(2,3) by (simp add: no_poll_def get_prop_def)
  qed
  then show ?thesis
    using assms by (auto simp: api_vote_def Let_def)
qed

theorem rejected_submission_witness:
  "fst (api_vote parse_labels stringify_plain POLLS \<lparr>now = 7, storage_error = None\<rparr>
     \<lparr>req_poll = Some ''7'', req_value = Some (JString ''x''), req_voterId = Some ''v''\<rparr> start) =
     \<lparr>status = 400, body = Error ''Invalid poll ID''\<rparr> \<and>
   snd (api_vote parse_labels stringify_plain POLLS \<lparr>now = 7, storage_error = None\<rparr>
     \<lparr>req_poll = Some ''7'', req_value = Some (JString ''x''), req_voterId = Some ''v''\<rparr> start) =
     start \<and>
   fst (api_vote parse_labels stringify_plain POLLS \<lparr>now = 7, storage_error = None\<rparr>
     \<lparr>req_poll = Some ''1'', req_value = Some (JString []), req_voterId = Some ''v''\<rparr> start) =
     \<lparr>status = 400, body = Error ''Missing poll, value, or voterId''\<rparr> \<and>
   snd (api_vote parse_labels stringify_plain POLLS \<lparr>now = 7, storage_error = None\<rparr>
     \<lparr>req_poll = Some ''1'', req_value = Some (JString []), req_voterId = Some ''v''\<rparr> start) =
     start"
proof -
  let ?env = "\<lparr>now = 7, storage_error = None\<rparr>"
  let ?r1 = "\<lparr>req_poll = Some ''7'', req_value = Some (JString ''x''), req_voterId = Some ''v''\<rparr>"
  let ?r2 = "\<lparr>req_poll = Some ''1'', req_value = Some (JString []), req_voterId = Some ''v''\<rparr>"
  have h1: "falsy_string (req_poll ?r1) \<or> falsy (req_value ?r1) \<or> falsy_string (req_voterId ?r1) \<or>
           (the (req_poll ?r1) \<notin> set (map fst POLLS) \<and>
            the (req_poll ?r1) \<noteq> ''__proto__'' \<and>
            the (req_poll ?r1) \<notin> set Object_prototype_methods)"
    by (simp add: POLLS_def Object_prototype_methods_def)
  have h2: "falsy_string (req_poll ?r2) \<or> falsy (req_value ?r2) \<or> falsy_string (req_voterId ?r2) \<or>
           (the (req_poll ?r2) \<notin> set (map fst POLLS) \<and>
            the (req_poll ?r2) \<noteq> ''__proto__'' \<and>
            the (req_poll ?r2) \<notin> set Object_prototype_methods)"
    by (simp add: falsy_def)
  have b1: "body (fst (api_vote parse_labels stringify_plain POLLS ?env ?r1 start)) =
              Error ''Invalid poll ID''"
    by (simp add: api_vote_def falsy_string_def falsy_def no_poll_def get_prop_def POLLS_def
        Object_prototype_methods_def)
  have b2: "body (fst (api_vote parse_labels stringify_plain POLLS ?env ?r2 start)) =
              Error ''Missing poll, value, or voterId''"
    by (simp add: api_vote_def falsy_def)
  from rejected_submission_changes_nothing [OF h1, of parse_labels stringify_plain ?env start]
    rejected_submission_changes_nothing [OF h2, of parse_labels stringify_plain ?env start]
    b1 b2
  show ?thesis
    by (simp add: response.equality)
qed

section \<open>The polls of the repository\<close>

text \<open>
  The option lists of the six polls of the catalogue are plain. So for the two
  single-choice polls and the rating-scale poll of the repository, and every list of
  stored values, the results hold the declared options in declared order, each with the
  number of stored values equal to it.
\<close>

theorem shipped_polls_list_declared_options_in_order:
  "\<forall>e \<in> set POLLS. type (snd e) = ''mc'' \<or> type (snd e) = ''likert'' \<longrightarrow>
     plain_labels (options (snd e)) \<and>
     total (aggregate parse (snd e) rows) = length rows \<and>
     filter (\<lambda>l. l \<in> set (options (snd e))) (map label (results (aggregate parse (snd e) rows))) =
       options (snd e) \<and>
     (\<forall>opt \<in> set (options (snd e)).
        Count opt (Num (count_list rows opt)) \<in> set (results (aggregate parse (snd e) rows)))"
proof (intro ballI impI)
  fix e
  assume e: "e \<in> set POLLS" and t: "type (snd e) = ''mc'' \<or> type (snd e) = ''likert''"
  have p: "plain_labels (options (snd e))"
    using plain_POLLS e by (simp add: list_all_iff)
  have r: "results (aggregate parse (snd e) rows) = entries_of (simple_count (options (snd e)) rows)"
    using t by (auto simp: aggregate_def)
  have ni: "list_all (\<lambda>k. \<not> is_array_index k) (options (snd e))"
    and np: "\<And>k. k \<in> set (options (snd e)) \<Longrightarrow> k \<noteq> ''__proto__''"
    using p by (auto simp: plain_labels_def list_all_iff)
  have "filter (\<lambda>l. l \<in> set (options (snd e)))
      (map label (results (aggregate parse (snd e) rows))) = options (snd e)"
    by (simp add: r labels_entries_of declared_of_entries [OF ni] simple_count_keys [OF p])
  moreover have "\<forall>opt \<in> set (options (snd e)).
      Count opt (Num (count_list rows opt)) \<in> set (results (aggregate parse (snd e) rows))"
    by (simp add: r Count_in_entries_of simple_count_slot np)
  ultimately show "plain_labels (options (snd e)) \<and>
     total (aggregate parse (snd e) rows) = length rows \<and>
     filter (\<lambda>l. l \<in> set (options (snd e))) (map label (results (aggregate parse (snd e) rows))) =
       options (snd e) \<and>
     (\<forall>opt \<in> set (options (snd e)).
        Count opt (Num (count_list rows opt)) \<in> set (results (aggregate parse (snd e) rows)))"
    using p by simp
qed

text \<open>Poll 6 after two votes for its second option and one for its fourth.\<close>

theorem shipped_polls_witness:
  "Count ''Yes, a few'' (Num 2) \<in>
     set (results (aggregate parse_labels
        \<lparr>question = ''How many of you have clients that use AI?'', type = ''mc'',
         options = [''Yes, several clients'', ''Yes, a few'', ''Not that I know of'',
                    ''I'm not sure'']\<rparr>
        [''Yes, a few'', ''I'm not sure'', ''Yes, a few'']))"
proof -
  let ?p = "\<lparr>question = ''How many of you have clients that use AI?'', type = ''mc'',
         options = [''Yes, several clients'', ''Yes, a few'', ''Not that I know of'',
                    ''I'm not sure'']\<rparr>"
  have e: "(''6'', ?p) \<in> set POLLS" by (simp add: POLLS_def)
  from shipped_polls_list_declared_options_in_order
      [of parse_labels "[''Yes, a few'', ''I'm not sure'', ''Yes, a few'']"] e
  have "\<forall>opt \<in> set (options ?p).
        Count opt (Num (count_list [''Yes, a few'', ''I'm not sure'', ''Yes, a few''] opt)) \<in>
          set (results (aggregate parse_labels ?p
            [''Yes, a few'', ''I'm not sure'', ''Yes, a few'']))"
    by fastforce
  then have "Count ''Yes, a few''
        (Num (count_list [''Yes, a few'', ''I'm not sure'', ''Yes, a few''] ''Yes, a few'')) \<in>
          set (results (aggregate parse_labels ?p
            [''Yes, a few'', ''I'm not sure'', ''Yes, a few'']))"
    by simp
  then show ?thesis by (simp add: numeral_2_eq_2)
qed

end
